theory Spec2Isabelle
  imports Complex_Main "HOL-Library.AList" "HOL-Library.Sublist"
begin

section \<open>Python values and exceptions\<close>

text \<open>
  The script \<^verbatim>\<open>examples/mnist_test_oss.py\<close> is orchestration code over Python's
  \<^verbatim>\<open>argparse\<close>, \<^verbatim>\<open>time\<close>, PyTorch and fairscale. The values that flow through the
  script itself are Python ints, floats and bools. Python ints are unbounded (\<open>int\<close>);
  floats are abstracted to \<open>real\<close> (rounding is not modelled).
\<close>

datatype pyval = PInt int | PFloat real | PBool bool

text \<open>
  Exceptions. \<open>SystemExit\<close> carries the exit status of \<^verbatim>\<open>sys.exit\<close>. \<^verbatim>\<open>AttributeError\<close> and
  \<^verbatim>\<open>TypeError\<close> are what Python raises in the script's own expressions (a missing attribute
  of \<^verbatim>\<open>args\<close>, \<^verbatim>\<open>range\<close> of a float), \<^verbatim>\<open>ValueError\<close> is what a constructor raises on
  arguments it refuses; every other exception is raised inside a library call and is
  opaque to the script.
\<close>

datatype py_exn =
    SystemExit nat
  | AttributeError string
  | TypeError
  | ValueError
  | Library_error string

text \<open>The built-in converters \<^verbatim>\<open>int\<close> and \<^verbatim>\<open>float\<close> that \<^verbatim>\<open>main\<close> passes as \<^verbatim>\<open>type=\<close>;
  \<open>None\<close> stands for the \<^verbatim>\<open>ValueError\<close> they raise on a string they do not accept.\<close>

record python =
  py_int :: "string \<Rightarrow> int option"
  py_float :: "string \<Rightarrow> real option"

section \<open>The argument parser built by \<^verbatim>\<open>main\<close>\<close>

text \<open>
  \<^verbatim>\<open>argparse\<close> is modelled after \<^verbatim>\<open>argparse.py\<close> of CPython 3.11, for the parser that
  \<^verbatim>\<open>main\<close> builds: optional arguments only, the default prefix character \<^verbatim>\<open>-\<close>,
  abbreviations allowed, every error reported by \<^verbatim>\<open>parser.error\<close>, that is, by
  \<^verbatim>\<open>sys.exit(2)\<close>.

  \<^verbatim>\<open>main\<close> declares ten arguments with \<^verbatim>\<open>parser.add_argument("--name", ...)\<close>. An
  \<^verbatim>\<open>ArgumentParser\<close> also carries the help action \<^verbatim>\<open>-h/--help\<close> that its constructor
  adds. \<open>Store ty\<close> is the default action \<^verbatim>\<open>store\<close> with \<^verbatim>\<open>type=ty\<close> (one argument),
  \<open>Store_true\<close> is \<^verbatim>\<open>action="store_true"\<close> (no argument).
\<close>

datatype arg_type = Type_int | Type_float

datatype action_kind = Store arg_type | Store_true | Help

record action =
  option_strings :: "string list"
  kind :: action_kind
  default_value :: "pyval option"

type_synonym namespace = "string \<rightharpoonup> pyval"

definition add_argument :: "string \<Rightarrow> action_kind \<Rightarrow> pyval \<Rightarrow> action" where
  "add_argument name k d = \<lparr>option_strings = [name], kind = k, default_value = Some d\<rparr>"

definition help_action :: action where
  "help_action = \<lparr>option_strings = [''-h'', ''--help''], kind = Help, default_value = None\<rparr>"

text \<open>The parser of \<^verbatim>\<open>main\<close>: its actions in the order of \<^verbatim>\<open>parser._actions\<close>.\<close>

definition parser_actions :: "action list" where
  "parser_actions =
    [ help_action,
      add_argument ''--batch_size'' (Store Type_int) (PInt 64),
      add_argument ''--test_batch_size'' (Store Type_int) (PInt 1000),
      add_argument ''--epochs'' (Store Type_int) (PInt 14),
      add_argument ''--lr'' (Store Type_float) (PFloat 1.0),
      add_argument ''--gamma'' (Store Type_float) (PFloat 0.7),
      add_argument ''--no_cuda'' Store_true (PBool False),
      add_argument ''--dry_run'' Store_true (PBool False),
      add_argument ''--seed'' (Store Type_int) (PInt 1),
      add_argument ''--log_interval'' (Store Type_int) (PInt 10),
      add_argument ''--save_model'' Store_true (PBool False) ]"

text \<open>\<^verbatim>\<open>dest\<close> of an optional argument: its first long option string without the leading
  prefix characters, \<^verbatim>\<open>-\<close> replaced by \<^verbatim>\<open>_\<close>. The help action has \<^verbatim>\<open>dest=SUPPRESS\<close>.\<close>

definition dest :: "action \<Rightarrow> string option" where
  "dest a =
    (if kind a = Help then None
     else Some (map (\<lambda>c. if c = CHR ''-'' then CHR ''_'' else c)
                  (dropWhile (\<lambda>c. c = CHR ''-'') (hd (option_strings a)))))"

text \<open>\<^verbatim>\<open>parser._option_string_actions\<close>, in insertion order.\<close>

definition option_string_actions :: "(string \<times> action) list" where
  "option_string_actions =
     concat (map (\<lambda>a. map (\<lambda>s. (s, a)) (option_strings a)) parser_actions)"

subsection \<open>Classifying the argument strings\<close>

text \<open>\<^verbatim>\<open>str.partition('=')\<close>: the part before the first \<^verbatim>\<open>=\<close>, and the part after it
  when there is one.\<close>

definition partition_eq :: "string \<Rightarrow> string \<times> string option" where
  "partition_eq s =
    (takeWhile (\<lambda>c. c \<noteq> CHR ''='') s,
     if CHR ''='' \<in> set s then Some (tl (dropWhile (\<lambda>c. c \<noteq> CHR ''='') s)) else None)"

definition startswith :: "string \<Rightarrow> string \<Rightarrow> bool" where
  "startswith s p = (take (length p) s = p)"

definition is_digit :: "char \<Rightarrow> bool" where
  "is_digit c = (c \<in> set ''0123456789'')"

text \<open>\<^verbatim>\<open>_negative_number_matcher = '^-\d+$|^-\d*\.\d+$'\<close>, on ASCII strings; \<^verbatim>\<open>$\<close> also
  matches before a final newline.\<close>

definition negative_number_like :: "string \<Rightarrow> bool" where
  "negative_number_like s =
    (let t = (if s \<noteq> [] \<and> last s = CHR 0x0A then butlast s else s) in
     case t of
       [] \<Rightarrow> False
     | c # r \<Rightarrow>
         c = CHR ''-'' \<and>
         ((r \<noteq> [] \<and> list_all is_digit r) \<or>
          (case dropWhile is_digit r of
             [] \<Rightarrow> False
           | d # f \<Rightarrow> d = CHR ''.'' \<and> f \<noteq> [] \<and> list_all is_digit f)))"

text \<open>An option tuple \<^verbatim>\<open>(action, option_string, sep, explicit_arg)\<close>.\<close>

type_synonym option_tuple = "action option \<times> string \<times> string option \<times> string option"

text \<open>\<^verbatim>\<open>_get_option_tuples\<close>, called on strings of length at least two that start with
  \<^verbatim>\<open>-\<close> (\<^verbatim>\<open>allow_abbrev\<close> is on by default).\<close>

definition get_option_tuples :: "string \<Rightarrow> option_tuple list" where
  "get_option_tuples option_string =
    (if option_string ! 1 = CHR ''-'' then
       (let (option_prefix, explicit_arg) = partition_eq option_string;
            sep = (if explicit_arg = None then None else Some ''='')
        in concat (map (\<lambda>(s, a). if startswith s option_prefix
                                   then [(Some a, s, sep, explicit_arg)] else [])
                       option_string_actions))
     else
       (let short_option_prefix = take 2 option_string;
            short_explicit_arg = drop 2 option_string
        in concat (map (\<lambda>(s, a).
                     if s = short_option_prefix then [(Some a, s, Some [], Some short_explicit_arg)]
                     else if startswith s option_string then [(Some a, s, None, None)]
                     else [])
                   option_string_actions)))"

text \<open>\<^verbatim>\<open>_parse_optional\<close>: \<open>Inr None\<close> when the string is meant to be positional;
  an ambiguous abbreviation is reported by \<^verbatim>\<open>self.error\<close>, which exits with status 2.\<close>

definition parse_optional :: "string \<Rightarrow> py_exn + option_tuple option" where
  "parse_optional arg_string =
    (if arg_string = [] then Inr None
     else if hd arg_string \<noteq> CHR ''-'' then Inr None
     else case map_of option_string_actions arg_string of
       Some a \<Rightarrow> Inr (Some (Some a, arg_string, None, None))
     | None \<Rightarrow>
        if length arg_string = 1 then Inr None
        else
          (let (option_string, explicit_arg) = partition_eq arg_string in
           if explicit_arg \<noteq> None \<and> map_of option_string_actions option_string \<noteq> None
           then Inr (Some (map_of option_string_actions option_string, option_string,
                           Some ''='', explicit_arg))
           else
             (let option_tuples = get_option_tuples arg_string in
              if length option_tuples > 1 then Inl (SystemExit 2)
              else if length option_tuples = 1 then Inr (Some (hd option_tuples))
              else if negative_number_like arg_string then Inr None
              else if CHR '' '' \<in> set arg_string then Inr None
              else Inr (Some (None, arg_string, None, None)))))"

text \<open>The pattern of the command line: \<open>O\<close> for an option, \<open>A\<close> for an argument, \<open>Dash\<close>
  for the first \<^verbatim>\<open>--\<close>, after which every string is an argument.\<close>

datatype arg_class = Class_O option_tuple | Class_A | Class_dash

fun arg_strings_pattern :: "string list \<Rightarrow> py_exn + arg_class list" where
  "arg_strings_pattern [] = Inr []"
| "arg_strings_pattern (arg_string # rest) =
    (if arg_string = ''--'' then Inr (Class_dash # map (\<lambda>_. Class_A) rest)
     else case parse_optional arg_string of
       Inl e \<Rightarrow> Inl e
     | Inr option_tuple \<Rightarrow>
        (case arg_strings_pattern rest of
           Inl e \<Rightarrow> Inl e
         | Inr pattern \<Rightarrow>
            Inr ((case option_tuple of None \<Rightarrow> Class_A | Some t \<Rightarrow> Class_O t) # pattern)))"

subsection \<open>Consuming the options\<close>

text \<open>\<^verbatim>\<open>_match_argument\<close> for an optional action: \<^verbatim>\<open>nargs=None\<close> has the pattern
  \<^verbatim>\<open>(A)\<close>, \<^verbatim>\<open>nargs=0\<close> the pattern \<^verbatim>\<open>()\<close>; no match is an \<^verbatim>\<open>ArgumentError\<close>, which
  \<^verbatim>\<open>parse_known_args\<close> turns into \<^verbatim>\<open>self.error\<close>.\<close>

definition match_argument :: "action \<Rightarrow> arg_class list \<Rightarrow> py_exn + nat" where
  "match_argument a pattern =
    (case kind a of
       Store ty \<Rightarrow> (case pattern of Class_A # _ \<Rightarrow> Inr 1 | _ \<Rightarrow> Inl (SystemExit 2))
     | _ \<Rightarrow> Inr 0)"

type_synonym action_tuple = "action \<times> string list \<times> string"

text \<open>The \<^verbatim>\<open>while True\<close> loop of \<^verbatim>\<open>consume_optional\<close> for an option whose action is
  known. It returns the action tuples, the number of following argument strings it
  takes, and the strings it adds to \<^verbatim>\<open>extras\<close>.\<close>

function consume_optional_loop ::
  "arg_class list \<Rightarrow> string list \<Rightarrow> action \<Rightarrow> string \<Rightarrow> string option \<Rightarrow> string option \<Rightarrow>
   action_tuple list \<Rightarrow> py_exn + (action_tuple list \<times> nat \<times> string list)" where
  "consume_optional_loop selected_patterns following a option_string sep explicit_arg action_tuples =
    (case explicit_arg of
       Some e \<Rightarrow>
        (case match_argument a [Class_A] of
           Inl err \<Rightarrow> Inl err
         | Inr arg_count \<Rightarrow>
            if arg_count = 0 \<and> option_string ! 1 \<noteq> CHR ''-'' \<and> e \<noteq> [] then
              (if sep = Some ''='' \<or> hd e = CHR ''-'' then Inl (SystemExit 2)
               else
                 (let action_tuples' = action_tuples @ [(a, [], option_string)];
                      option_string' = [hd option_string, hd e]
                  in case map_of option_string_actions option_string' of
                       Some a' \<Rightarrow>
                        (if tl e = [] then
                           consume_optional_loop selected_patterns following a' option_string'
                             None None action_tuples'
                         else if hd (tl e) = CHR ''='' then
                           consume_optional_loop selected_patterns following a' option_string'
                             (Some ''='') (Some (tl (tl e))) action_tuples'
                         else
                           consume_optional_loop selected_patterns following a' option_string'
                             (Some []) (Some (tl e)) action_tuples')
                     | None \<Rightarrow> Inr (action_tuples', 0, [hd option_string # e])))
            else if arg_count = 1 then Inr (action_tuples @ [(a, [e], option_string)], 0, [])
            else Inl (SystemExit 2))
     | None \<Rightarrow>
        (case match_argument a selected_patterns of
           Inl err \<Rightarrow> Inl err
         | Inr arg_count \<Rightarrow>
            Inr (action_tuples @ [(a, take arg_count following, option_string)], arg_count, [])))"
  by pat_completeness auto
termination
  by (relation "measure (\<lambda>(p, f, a, s, sep, e, t). case e of None \<Rightarrow> 0 | Some x \<Rightarrow> Suc (length x))")
     (auto simp: neq_Nil_conv)

text \<open>\<^verbatim>\<open>take_action\<close>: \<^verbatim>\<open>_get_values\<close> converts the single argument of a \<^verbatim>\<open>store\<close>
  action with its \<^verbatim>\<open>type\<close> function (a \<^verbatim>\<open>ValueError\<close> becomes \<^verbatim>\<open>self.error\<close>), then the
  action runs: \<^verbatim>\<open>store\<close> and \<^verbatim>\<open>store_true\<close> set the attribute, help prints and exits
  with status 0.\<close>

definition get_value :: "python \<Rightarrow> arg_type \<Rightarrow> string \<Rightarrow> py_exn + pyval" where
  "get_value py ty arg_string =
    (case ty of
       Type_int \<Rightarrow> (case py_int py arg_string of None \<Rightarrow> Inl (SystemExit 2) | Some n \<Rightarrow> Inr (PInt n))
     | Type_float \<Rightarrow> (case py_float py arg_string of None \<Rightarrow> Inl (SystemExit 2) | Some x \<Rightarrow> Inr (PFloat x)))"

definition take_action :: "python \<Rightarrow> action_tuple \<Rightarrow> namespace \<Rightarrow> py_exn + namespace" where
  "take_action py t ns =
    (case t of (a, argument_strings, option_string) \<Rightarrow>
      (case kind a of
         Help \<Rightarrow> Inl (SystemExit 0)
       | Store_true \<Rightarrow> Inr (ns(the (dest a) \<mapsto> PBool True))
       | Store ty \<Rightarrow>
          (case argument_strings of
             [arg_string] \<Rightarrow>
               (case get_value py ty arg_string of
                  Inl e \<Rightarrow> Inl e
                | Inr v \<Rightarrow> Inr (ns(the (dest a) \<mapsto> v)))
           | _ \<Rightarrow> Inl (SystemExit 2))))"

fun take_actions :: "python \<Rightarrow> action_tuple list \<Rightarrow> namespace \<Rightarrow> py_exn + namespace" where
  "take_actions py [] ns = Inr ns"
| "take_actions py (t # ts) ns =
    (case take_action py t ns of Inl e \<Rightarrow> Inl e | Inr ns' \<Rightarrow> take_actions py ts ns')"

text \<open>\<^verbatim>\<open>consume_optional\<close> at an index holding an option: the number of following strings
  consumed, the namespace and the extras.\<close>

definition consume_optional ::
  "python \<Rightarrow> option_tuple \<Rightarrow> string \<Rightarrow> arg_class list \<Rightarrow> string list \<Rightarrow> namespace \<Rightarrow> string list \<Rightarrow>
   py_exn + (nat \<times> namespace \<times> string list)" where
  "consume_optional py option_tuple arg_string selected_patterns following ns extras =
    (case option_tuple of (action_opt, option_string, sep, explicit_arg) \<Rightarrow>
      (case action_opt of
         None \<Rightarrow> Inr (0, ns, extras @ [arg_string])
       | Some a \<Rightarrow>
          (case consume_optional_loop selected_patterns following a option_string sep explicit_arg [] of
             Inl e \<Rightarrow> Inl e
           | Inr (action_tuples, arg_count, added) \<Rightarrow>
              (case take_actions py action_tuples ns of
                 Inl e \<Rightarrow> Inl e
               | Inr ns' \<Rightarrow> Inr (arg_count, ns', extras @ added)))))"

text \<open>The main loop of \<^verbatim>\<open>_parse_known_args\<close>. The parser has no positional action, so
  \<^verbatim>\<open>consume_positionals\<close> consumes nothing and every string that is neither an option nor
  an option's argument goes to \<^verbatim>\<open>extras\<close>.\<close>

function consume :: "python \<Rightarrow> string list \<Rightarrow> arg_class list \<Rightarrow> namespace \<Rightarrow> string list \<Rightarrow>
    py_exn + (namespace \<times> string list)" where
  "consume py [] pattern ns extras = Inr (ns, extras)"
| "consume py (arg_string # rest) pattern ns extras =
    (case pattern of
       [] \<Rightarrow> Inr (ns, extras @ arg_string # rest)
     | Class_O option_tuple # selected_patterns \<Rightarrow>
        (case consume_optional py option_tuple arg_string selected_patterns rest ns extras of
           Inl e \<Rightarrow> Inl e
         | Inr (arg_count, ns', extras') \<Rightarrow>
            consume py (drop arg_count rest) (drop arg_count selected_patterns) ns' extras')
     | _ # selected_patterns \<Rightarrow> consume py rest selected_patterns ns (extras @ [arg_string]))"
  by pat_completeness auto
termination
  by (relation "measure (\<lambda>(py, strs, p, ns, ex). length strs)") auto

text \<open>The namespace before parsing: every action's default under its \<^verbatim>\<open>dest\<close>.\<close>

definition default_namespace :: namespace where
  "default_namespace =
     fold (\<lambda>a ns. case (dest a, default_value a) of
                     (Some d, Some v) \<Rightarrow> (if ns d = None then ns(d \<mapsto> v) else ns)
                   | _ \<Rightarrow> ns)
          parser_actions Map.empty"

text \<open>\<^verbatim>\<open>parser.parse_args()\<close> on the command line \<^verbatim>\<open>sys.argv[1:]\<close>: left-over strings are
  reported as unrecognized arguments by \<^verbatim>\<open>self.error\<close> (exit status 2).\<close>

definition parse_args :: "python \<Rightarrow> string list \<Rightarrow> py_exn + namespace" where
  "parse_args py arg_strings =
    (case arg_strings_pattern arg_strings of
       Inl e \<Rightarrow> Inl e
     | Inr pattern \<Rightarrow>
        (case consume py arg_strings pattern default_namespace [] of
           Inl e \<Rightarrow> Inl e
         | Inr (ns, extras) \<Rightarrow> if extras \<noteq> [] then Inl (SystemExit 2) else Inr ns))"

section \<open>The external world of \<^verbatim>\<open>train\<close>\<close>

text \<open>
  \<^verbatim>\<open>train\<close> is a sequence of calls into \<^verbatim>\<open>torch\<close>, \<^verbatim>\<open>torchvision\<close>, \<^verbatim>\<open>fairscale\<close> and
  \<^verbatim>\<open>time\<close>. Each call is recorded, with the arguments the script passes, as an event.
\<close>

datatype backend = NCCL | GLOO

datatype device = Device_index int | Device_name string

datatype optim_class = Adadelta | RMSprop

datatype tensor = Tensor nat | To tensor device

datatype kwval = Kw_value pyval | Kw_sampler

datatype layer = Conv2d nat nat nat nat | Dropout2d real | Linear nat nat

datatype print_arg = Str string | Num real

text \<open>The body of the nested function \<^verbatim>\<open>closure\<close>, as the calls it makes when invoked.\<close>

datatype closure_op =
    Model_zero_grad
  | Model_call tensor
  | Loss_fn_call tensor
  | Loss_backward
  | Return_loss

datatype call =
    Print "print_arg list"
  | Init_process_group backend string int nat
  | Cuda_set_device int
  | Torch_device device
  | ToTensor
  | Normalize "real list" "real list"
  | Compose
  | MNIST string bool bool
  | DistributedSampler nat int
  | DataLoader "(string \<times> kwval) list"
  | Module_init
  | New_layer layer
  | Module_to device
  | CrossEntropyLoss
  | Model_parameters
  | OSS optim_class real
  | ShardedDataParallel
  | Cuda_reset_peak_memory_stats int
  | Cuda_synchronize int
  | Time_monotonic
  | Model_train
  | Sampler_set_epoch nat
  | Loader_iter
  | Loader_next
  | Tensor_to tensor device
  | Optimizer_step "closure_op list"

text \<open>
  What the script cannot determine is a parameter: whether CUDA is available, whether a
  call raises (given the calls made so far), what the monotonic clock reads at its
  \<open>k\<close>-th reading, and which batches the data loader serves for given loader arguments,
  rank and sampler epoch.
\<close>

record world =
  cuda_is_available :: bool
  raises :: "call list \<Rightarrow> call \<Rightarrow> py_exn option"
  monotonic :: "nat \<Rightarrow> real"
  batches :: "(string \<times> kwval) list \<Rightarrow> int \<Rightarrow> nat \<Rightarrow> (tensor \<times> tensor) list"

text \<open>
  The state of one worker process is the list of calls it has made so far. A statement
  of the script maps it to a result, an exception or a value, and the extended list.
\<close>

type_synonym 'a m = "call list \<Rightarrow> (py_exn + 'a) \<times> call list"

definition return_m :: "'a \<Rightarrow> 'a m" where
  "return_m x = (\<lambda>s. (Inr x, s))"

definition raise_m :: "py_exn \<Rightarrow> 'a m" where
  "raise_m e = (\<lambda>s. (Inl e, s))"

definition bind_m :: "'a m \<Rightarrow> ('a \<Rightarrow> 'b m) \<Rightarrow> 'b m" where
  "bind_m m f = (\<lambda>s. case m s of (Inl e, s') \<Rightarrow> (Inl e, s') | (Inr x, s') \<Rightarrow> f x s')"

definition then_m :: "'a m \<Rightarrow> 'b m \<Rightarrow> 'b m" where
  "then_m m n = bind_m m (\<lambda>_. n)"

definition when_m :: "bool \<Rightarrow> unit m \<Rightarrow> unit m" where
  "when_m b m = (if b then m else return_m ())"

fun seq_m :: "unit m list \<Rightarrow> unit m" where
  "seq_m [] = return_m ()"
| "seq_m (m # ms) = then_m m (seq_m ms)"

text \<open>A \<^verbatim>\<open>for\<close> loop over a list.\<close>

fun for_m :: "'a list \<Rightarrow> ('a \<Rightarrow> unit m) \<Rightarrow> unit m" where
  "for_m [] body = return_m ()"
| "for_m (x # xs) body = then_m (body x) (for_m xs body)"

text \<open>\<^verbatim>\<open>not x\<close>, \<^verbatim>\<open>x and y\<close> and \<^verbatim>\<open>if x\<close> test the truth value of \<^verbatim>\<open>x\<close>.\<close>

definition truthy :: "pyval \<Rightarrow> bool" where
  "truthy v = (case v of PInt n \<Rightarrow> n \<noteq> 0 | PFloat x \<Rightarrow> x \<noteq> 0 | PBool b \<Rightarrow> b)"

text \<open>
  Whether a call raises. One failure does not depend on the world: the constructor of
  \<^verbatim>\<open>torch.utils.data.DataLoader\<close> checks its arguments and raises
  \<^verbatim>\<open>ValueError('sampler option is mutually exclusive with shuffle')\<close> when a sampler is
  given and \<^verbatim>\<open>shuffle\<close> is true.
\<close>

definition outcome :: "world \<Rightarrow> call list \<Rightarrow> call \<Rightarrow> py_exn option" where
  "outcome w tr c =
    (case c of
       DataLoader kwargs \<Rightarrow>
         if map_of kwargs ''sampler'' \<noteq> None \<and>
            (case map_of kwargs ''shuffle'' of Some (Kw_value v) \<Rightarrow> truthy v | _ \<Rightarrow> False)
         then Some ValueError
         else raises w tr c
     | _ \<Rightarrow> raises w tr c)"

text \<open>A library call: it is recorded, and it raises or returns.\<close>

definition ext :: "world \<Rightarrow> call \<Rightarrow> unit m" where
  "ext w c = (\<lambda>tr. (case outcome w tr c of Some e \<Rightarrow> Inl e | None \<Rightarrow> Inr (), tr @ [c]))"

text \<open>\<^verbatim>\<open>time.monotonic()\<close>: the reading number \<open>k\<close>, where \<open>k\<close> readings were taken before.\<close>

definition time_monotonic :: "world \<Rightarrow> real m" where
  "time_monotonic w = (\<lambda>tr.
     case ext w Time_monotonic tr of
       (Inl e, tr') \<Rightarrow> (Inl e, tr')
     | (Inr _, tr') \<Rightarrow> (Inr (monotonic w (count_list tr Time_monotonic)), tr'))"

text \<open>Attribute access on the namespace.\<close>

definition getattr :: "namespace \<Rightarrow> string \<Rightarrow> pyval m" where
  "getattr ns name = (case ns name of None \<Rightarrow> raise_m (AttributeError name) | Some v \<Rightarrow> return_m v)"

text \<open>\<^verbatim>\<open>range(n)\<close>: a \<^verbatim>\<open>bool\<close> is an \<^verbatim>\<open>int\<close> in Python, a \<^verbatim>\<open>float\<close> is a \<^verbatim>\<open>TypeError\<close>.\<close>

definition py_range :: "pyval \<Rightarrow> nat list m" where
  "py_range v =
    (case v of
       PInt n \<Rightarrow> return_m [0..<nat n]
     | PBool b \<Rightarrow> return_m [0..<(if b then 1 else 0)]
     | PFloat x \<Rightarrow> raise_m TypeError)"

text \<open>\<^verbatim>\<open>dict.update\<close> on a dictionary kept in insertion order.\<close>

definition dict_update :: "('k \<times> 'v) list \<Rightarrow> ('k \<times> 'v) list \<Rightarrow> ('k \<times> 'v) list" where
  "dict_update d other = fold (\<lambda>(k, v). AList.update k v) other d"

text \<open>The epoch attribute of the \<^verbatim>\<open>DistributedSampler\<close> after the calls made: 0 when
  constructed, then the argument of the last \<^verbatim>\<open>set_epoch\<close>.\<close>

definition sampler_epoch :: "call list \<Rightarrow> nat" where
  "sampler_epoch tr =
     foldl (\<lambda>epoch c. case c of
                         DistributedSampler _ _ \<Rightarrow> 0
                       | Sampler_set_epoch e \<Rightarrow> e
                       | _ \<Rightarrow> epoch) 0 tr"

text \<open>Iterating the loader: one \<^verbatim>\<open>iter\<close>, one \<^verbatim>\<open>next\<close> per batch and a last \<^verbatim>\<open>next\<close> that
  ends the loop. The batches served are those of the sampler's current epoch.\<close>

fun iterate :: "world \<Rightarrow> (tensor \<times> tensor) list \<Rightarrow> (tensor \<times> tensor \<Rightarrow> unit m) \<Rightarrow> unit m" where
  "iterate w [] body = ext w Loader_next"
| "iterate w (b # bs) body = then_m (ext w Loader_next) (then_m (body b) (iterate w bs body))"

definition enumerate_loader ::
  "world \<Rightarrow> (string \<times> kwval) list \<Rightarrow> int \<Rightarrow> (tensor \<times> tensor \<Rightarrow> unit m) \<Rightarrow> unit m" where
  "enumerate_loader w kwargs rank body =
     then_m (ext w Loader_iter)
            (\<lambda>tr. iterate w (batches w kwargs rank (sampler_epoch tr)) body tr)"

section \<open>The script\<close>

definition WORLD_SIZE :: nat where
  "WORLD_SIZE = 2"

definition OPTIM :: optim_class where
  "OPTIM = RMSprop"

definition BACKEND :: "world \<Rightarrow> backend" where
  "BACKEND w = (if cuda_is_available w then NCCL else GLOO)"

definition backend_str :: "backend \<Rightarrow> string" where
  "backend_str b = (case b of NCCL \<Rightarrow> ''nccl'' | GLOO \<Rightarrow> ''gloo'')"

definition dist_init :: "world \<Rightarrow> int \<Rightarrow> nat \<Rightarrow> backend \<Rightarrow> unit m" where
  "dist_init w rank world_size backend =
     then_m (ext w (Print [Str (''Using backend: '' @ backend_str backend)]))
            (ext w (Init_process_group backend ''tcp://localhost:29501'' rank world_size))"

subsection \<open>The class \<^verbatim>\<open>Net\<close>\<close>

record net =
  conv1 :: layer
  conv2 :: layer
  dropout1 :: layer
  dropout2 :: layer
  fc1 :: layer
  fc2 :: layer

definition new_layer :: "world \<Rightarrow> layer \<Rightarrow> layer m" where
  "new_layer w l = then_m (ext w (New_layer l)) (return_m l)"

definition Net_init :: "world \<Rightarrow> net m" where
  "Net_init w =
     then_m (ext w Module_init)
    (bind_m (new_layer w (Conv2d 1 32 3 1)) (\<lambda>c1.
     bind_m (new_layer w (Conv2d 32 64 3 1)) (\<lambda>c2.
     bind_m (new_layer w (Dropout2d 0.25)) (\<lambda>d1.
     bind_m (new_layer w (Dropout2d 0.5)) (\<lambda>d2.
     bind_m (new_layer w (Linear 9216 128)) (\<lambda>f1.
     bind_m (new_layer w (Linear 128 10)) (\<lambda>f2.
     return_m \<lparr>conv1 = c1, conv2 = c2, dropout1 = d1, dropout2 = d2, fc1 = f1, fc2 = f2\<rparr>)))))))"

text \<open>
  The forward pass at the level of tensor shapes. The shape rules of the layers are
  those of the PyTorch documentation for batched input: \<^verbatim>\<open>Conv2d(in, out, k, stride)\<close>
  maps \<open>[N, in, H, W]\<close> to \<open>[N, out, (H - k) div stride + 1, (W - k) div stride + 1]\<close>,
  \<^verbatim>\<open>Linear(in, out)\<close> replaces a last dimension \<open>in\<close> by \<open>out\<close>, dropout and \<^verbatim>\<open>relu\<close> keep
  the shape; a shape a layer does not accept raises.
\<close>

type_synonym shape = "nat list"

definition shape_error :: "py_exn + shape" where
  "shape_error = Inl (Library_error ''RuntimeError'')"

fun apply_layer :: "layer \<Rightarrow> shape \<Rightarrow> py_exn + shape" where
  "apply_layer (Conv2d c_in c_out k stride) x =
    (case x of
       [n, c, h, w] \<Rightarrow>
         if c = c_in \<and> 0 < stride \<and> k \<le> h \<and> k \<le> w
         then Inr [n, c_out, (h - k) div stride + 1, (w - k) div stride + 1]
         else shape_error
     | _ \<Rightarrow> shape_error)"
| "apply_layer (Dropout2d p) x = Inr x"
| "apply_layer (Linear f_in f_out) x =
    (if x \<noteq> [] \<and> last x = f_in then Inr (butlast x @ [f_out]) else shape_error)"

definition relu :: "shape \<Rightarrow> py_exn + shape" where
  "relu x = Inr x"

definition max_pool2d :: "shape \<Rightarrow> nat \<Rightarrow> py_exn + shape" where
  "max_pool2d x k =
    (case x of
       [n, c, h, w] \<Rightarrow>
         if 0 < k \<and> k \<le> h \<and> k \<le> w then Inr [n, c, (h - k) div k + 1, (w - k) div k + 1]
         else shape_error
     | _ \<Rightarrow> shape_error)"

definition flatten :: "shape \<Rightarrow> nat \<Rightarrow> py_exn + shape" where
  "flatten x start_dim =
    (if start_dim < length x then Inr (take start_dim x @ [prod_list (drop start_dim x)])
     else shape_error)"

definition log_softmax :: "shape \<Rightarrow> nat \<Rightarrow> py_exn + shape" where
  "log_softmax x dim_arg = (if dim_arg < length x then Inr x else shape_error)"

definition bind_e :: "py_exn + 'a \<Rightarrow> ('a \<Rightarrow> py_exn + 'b) \<Rightarrow> py_exn + 'b" where
  "bind_e r f = (case r of Inl e \<Rightarrow> Inl e | Inr x \<Rightarrow> f x)"

definition Net_forward :: "net \<Rightarrow> shape \<Rightarrow> py_exn + shape" where
  "Net_forward self x =
     bind_e (apply_layer (conv1 self) x) (\<lambda>x.
     bind_e (relu x) (\<lambda>x.
     bind_e (apply_layer (conv2 self) x) (\<lambda>x.
     bind_e (relu x) (\<lambda>x.
     bind_e (max_pool2d x 2) (\<lambda>x.
     bind_e (apply_layer (dropout1 self) x) (\<lambda>x.
     bind_e (flatten x 1) (\<lambda>x.
     bind_e (apply_layer (fc1 self) x) (\<lambda>x.
     bind_e (relu x) (\<lambda>x.
     bind_e (apply_layer (dropout2 self) x) (\<lambda>x.
     bind_e (apply_layer (fc2 self) x) (\<lambda>x.
     log_softmax x 1)))))))))))"

subsection \<open>The function \<^verbatim>\<open>train\<close>\<close>

definition closure :: "tensor \<Rightarrow> tensor \<Rightarrow> closure_op list" where
  "closure data target =
     [Model_zero_grad, Model_call data, Loss_fn_call target, Loss_backward, Return_loss]"

definition train_batch :: "world \<Rightarrow> device \<Rightarrow> tensor \<times> tensor \<Rightarrow> unit m" where
  "train_batch w device b =
    (case b of (data, target) \<Rightarrow>
       seq_m [ext w (Tensor_to data device),
              ext w (Tensor_to target device),
              ext w (Optimizer_step (closure (To data device) (To target device)))])"

definition train :: "world \<Rightarrow> int \<Rightarrow> namespace \<Rightarrow> bool \<Rightarrow> unit m" where
  "train w rank args use_cuda =
    (let device = (if use_cuda then Device_index rank else Device_name ''cpu'') in
     then_m (seq_m
       [dist_init w rank WORLD_SIZE (BACKEND w),
        when_m use_cuda (ext w (Cuda_set_device rank)),
        ext w (Torch_device device),
        ext w ToTensor,
        ext w (Normalize [0.1307] [0.3081]),
        ext w Compose,
        ext w (MNIST ''../data'' True True),
        ext w (DistributedSampler WORLD_SIZE rank)])
    (bind_m (getattr args ''batch_size'') (\<lambda>batch_size.
     let kwargs = [(''batch_size'', Kw_value batch_size), (''sampler'', Kw_sampler)];
         kwargs = (if use_cuda
                   then dict_update kwargs
                          [(''num_workers'', Kw_value (PInt 1)),
                           (''pin_memory'', Kw_value (PBool True)),
                           (''shuffle'', Kw_value (PBool True))]
                   else kwargs) in
     then_m (ext w (DataLoader kwargs))
    (bind_m (Net_init w) (\<lambda>model.
     then_m (seq_m
       [ext w (Module_to device),
        ext w CrossEntropyLoss,
        ext w Model_parameters,
        ext w (OSS Adadelta (1 / 10000)),
        ext w ShardedDataParallel,
        when_m use_cuda
          (seq_m [ext w (Cuda_reset_peak_memory_stats rank), ext w (Cuda_synchronize rank)])])
    (bind_m (time_monotonic w) (\<lambda>training_start.
     then_m (ext w Model_train)
    (bind_m (getattr args ''epochs'') (\<lambda>epochs.
     bind_m (py_range epochs) (\<lambda>epoch_range.
     then_m (for_m epoch_range (\<lambda>epoch.
               then_m (ext w (Sampler_set_epoch epoch))
              (bind_m (time_monotonic w) (\<lambda>epoch_start.
               then_m (enumerate_loader w kwargs rank (train_batch w device))
              (bind_m (time_monotonic w) (\<lambda>epoch_end. return_m ()))))))
    (then_m (when_m use_cuda (ext w (Cuda_synchronize rank)))
    (bind_m (time_monotonic w) (\<lambda>training_stop.
     ext w (Print [Str ''Total Time:'', Num (training_stop - training_start)]))))))))))))))"

subsection \<open>The function \<^verbatim>\<open>main\<close>\<close>


section \<open>The calls of a run\<close>

text \<open>
  The definitions of this section name the pieces of a run of \<^verbatim>\<open>train\<close>: a straight
  sequence of library calls, and the calls that the statements of \<^verbatim>\<open>train\<close> make, in
  order, when none raises.
\<close>

definition run :: "world \<Rightarrow> call list \<Rightarrow> unit m" where
  "run w cs = seq_m (map (ext w) cs)"

definition device_of :: "int \<Rightarrow> bool \<Rightarrow> device" where
  "device_of rank use_cuda = (if use_cuda then Device_index rank else Device_name ''cpu'')"

text \<open>The dictionary \<^verbatim>\<open>kwargs\<close> when the loader is constructed.\<close>

definition loader_kwargs :: "pyval \<Rightarrow> bool \<Rightarrow> (string \<times> kwval) list" where
  "loader_kwargs batch_size use_cuda =
    ([(''batch_size'', Kw_value batch_size), (''sampler'', Kw_sampler)] @
     (if use_cuda
      then [(''num_workers'', Kw_value (PInt 1)), (''pin_memory'', Kw_value (PBool True)),
            (''shuffle'', Kw_value (PBool True))]
      else []))"

text \<open>From \<^verbatim>\<open>dist_init\<close> to the construction of the sampler.\<close>

definition setup_calls :: "world \<Rightarrow> int \<Rightarrow> bool \<Rightarrow> call list" where
  "setup_calls w rank use_cuda =
     [Print [Str (''Using backend: '' @ backend_str (BACKEND w))],
      Init_process_group (BACKEND w) ''tcp://localhost:29501'' rank WORLD_SIZE] @
     (if use_cuda then [Cuda_set_device rank] else []) @
     [Torch_device (device_of rank use_cuda), ToTensor, Normalize [0.1307] [0.3081], Compose,
      MNIST ''../data'' True True, DistributedSampler WORLD_SIZE rank]"

text \<open>From the construction of the loader to the reset of the memory counters.\<close>

definition model_calls :: "int \<Rightarrow> pyval \<Rightarrow> bool \<Rightarrow> call list" where
  "model_calls rank batch_size use_cuda =
     [DataLoader (loader_kwargs batch_size use_cuda), Module_init,
      New_layer (Conv2d 1 32 3 1), New_layer (Conv2d 32 64 3 1),
      New_layer (Dropout2d 0.25), New_layer (Dropout2d 0.5),
      New_layer (Linear 9216 128), New_layer (Linear 128 10),
      Module_to (device_of rank use_cuda), CrossEntropyLoss, Model_parameters,
      OSS Adadelta (1 / 10000), ShardedDataParallel] @
     (if use_cuda then [Cuda_reset_peak_memory_stats rank, Cuda_synchronize rank] else [])"

text \<open>One batch: its fetch and the body of the inner loop.\<close>

definition batch_calls :: "device \<Rightarrow> tensor \<times> tensor \<Rightarrow> call list" where
  "batch_calls device b =
     [Loader_next, Tensor_to (fst b) device, Tensor_to (snd b) device,
      Optimizer_step (closure (To (fst b) device) (To (snd b) device))]"

text \<open>One epoch: the body of the outer loop.\<close>

definition epoch_calls :: "world \<Rightarrow> int \<Rightarrow> pyval \<Rightarrow> bool \<Rightarrow> nat \<Rightarrow> call list" where
  "epoch_calls w rank batch_size use_cuda epoch =
     [Sampler_set_epoch epoch, Time_monotonic, Loader_iter] @
     concat (map (batch_calls (device_of rank use_cuda))
                 (batches w (loader_kwargs batch_size use_cuda) rank epoch)) @
     [Loader_next, Time_monotonic]"

definition loop_calls :: "world \<Rightarrow> int \<Rightarrow> pyval \<Rightarrow> bool \<Rightarrow> nat list \<Rightarrow> call list" where
  "loop_calls w rank batch_size use_cuda epochs =
     concat (map (epoch_calls w rank batch_size use_cuda) epochs) @
     (if use_cuda then [Cuda_synchronize rank] else []) @ [Time_monotonic]"

text \<open>The values \<^verbatim>\<open>range(args.epochs)\<close> yields.\<close>

definition epoch_list :: "pyval \<Rightarrow> nat list" where
  "epoch_list v =
    (case v of PInt n \<Rightarrow> [0..<nat n] | PBool b \<Rightarrow> [0..<(if b then 1 else 0)] | PFloat x \<Rightarrow> [])"

text \<open>Every call of a run in which nothing raises, up to the last reading of the clock.\<close>

definition planned_calls :: "world \<Rightarrow> int \<Rightarrow> pyval \<Rightarrow> bool \<Rightarrow> nat list \<Rightarrow> call list" where
  "planned_calls w rank batch_size use_cuda epochs =
     setup_calls w rank use_cuda @ model_calls rank batch_size use_cuda @
     [Time_monotonic, Model_train] @ loop_calls w rank batch_size use_cuda epochs"

text \<open>The elapsed time of such a run: the clock is read once before the loop, twice in
  every epoch and once after the loop.\<close>

definition total_time :: "world \<Rightarrow> nat list \<Rightarrow> real" where
  "total_time w epochs = monotonic w (2 * length epochs + 1) - monotonic w 0"

text \<open>The exceptions that the expressions of \<^verbatim>\<open>train\<close> raise themselves: a missing
  attribute of \<^verbatim>\<open>args\<close>, and \<^verbatim>\<open>range\<close> of a float.\<close>

definition own_errors :: "py_exn set" where
  "own_errors = {AttributeError ''batch_size'', AttributeError ''epochs'', TypeError}"

text \<open>
  Failing fast, for a statement started after the calls \<open>tr\<close>: a call that raised is the
  last call made and its exception is the result; a run that ends in an exception ends
  in the exception of its last call, or in one of the script's own.
\<close>

definition fail_fast :: "world \<Rightarrow> call list \<Rightarrow> (py_exn + unit) \<times> call list \<Rightarrow> bool" where
  "fail_fast w tr res =
    (case res of (r, tr') \<Rightarrow>
      (\<exists>new. tr' = tr @ new \<and>
        (\<forall>i<length new. \<forall>e. outcome w (tr @ take i new) (new ! i) = Some e \<longrightarrow>
             r = Inl e \<and> Suc i = length new) \<and>
        (\<forall>e. r = Inl e \<longrightarrow>
             (new \<noteq> [] \<and> outcome w (tr @ butlast new) (last new) = Some e) \<or>
             (e \<in> own_errors \<and> (\<forall>i<length new. outcome w (tr @ take i new) (new ! i) = None)))))"

text \<open>The calls that \<^verbatim>\<open>train\<close> makes from \<^verbatim>\<open>training_start = time.monotonic()\<close> to the end
  of the loop.\<close>

definition training_call :: "call \<Rightarrow> bool" where
  "training_call c =
    (case c of
       Time_monotonic \<Rightarrow> True | Model_train \<Rightarrow> True | Sampler_set_epoch _ \<Rightarrow> True
     | Loader_iter \<Rightarrow> True | Loader_next \<Rightarrow> True | Tensor_to _ _ \<Rightarrow> True
     | Optimizer_step _ \<Rightarrow> True | _ \<Rightarrow> False)"



section \<open>Concrete worlds and arguments\<close>

text \<open>A world in which no call raises: no CUDA, a clock that advances by one at every
  reading, and a loader that serves one batch per epoch.\<close>

definition quiet_world :: world where
  "quiet_world =
     \<lparr>cuda_is_available = False, raises = (\<lambda>h c. None), monotonic = (\<lambda>k. real k),
      batches = (\<lambda>kwargs rank epoch. [(Tensor (2 * epoch), Tensor (2 * epoch + 1))])\<rparr>"


text \<open>A world in which the dataset cannot be downloaded.\<close>

definition offline_world :: world where
  "offline_world =
     quiet_world\<lparr>raises := (\<lambda>h c. case c of MNIST _ _ _ \<Rightarrow> Some (Library_error ''RuntimeError'')
                                   | _ \<Rightarrow> None)\<rparr>"

text \<open>A world with CUDA.\<close>

definition cuda_world :: world where
  "cuda_world = quiet_world\<lparr>cuda_is_available := True\<rparr>"

text \<open>The default arguments with a single epoch.\<close>

definition one_epoch :: namespace where
  "one_epoch = default_namespace(''epochs'' \<mapsto> PInt 1)"

text \<open>The calls of the runs in these worlds.\<close>

definition offline_trace :: "call list" where
  "offline_trace =
     [Print [Str ''Using backend: gloo''], Init_process_group GLOO ''tcp://localhost:29501'' 0 2,
      Torch_device (Device_name ''cpu''), ToTensor, Normalize [0.1307] [0.3081], Compose,
      MNIST ''../data'' True True]"

definition cuda_kwargs :: "(string \<times> kwval) list" where
  "cuda_kwargs =
     [(''batch_size'', Kw_value (PInt 64)), (''sampler'', Kw_sampler),
      (''num_workers'', Kw_value (PInt 1)), (''pin_memory'', Kw_value (PBool True)),
      (''shuffle'', Kw_value (PBool True))]"

definition cuda_trace :: "call list" where
  "cuda_trace =
     [Print [Str ''Using backend: nccl''], Init_process_group NCCL ''tcp://localhost:29501'' 0 2,
      Cuda_set_device 0, Torch_device (Device_index 0), ToTensor, Normalize [0.1307] [0.3081],
      Compose, MNIST ''../data'' True True, DistributedSampler 2 0, DataLoader cuda_kwargs]"

definition quiet_trace :: "real \<Rightarrow> call list" where
  "quiet_trace t =
     [Print [Str ''Using backend: gloo''], Init_process_group GLOO ''tcp://localhost:29501'' 0 2,
      Torch_device (Device_name ''cpu''), ToTensor, Normalize [0.1307] [0.3081], Compose,
      MNIST ''../data'' True True, DistributedSampler 2 0,
      DataLoader [(''batch_size'', Kw_value (PInt 64)), (''sampler'', Kw_sampler)], Module_init,
      New_layer (Conv2d 1 32 3 1), New_layer (Conv2d 32 64 3 1),
      New_layer (Dropout2d 0.25), New_layer (Dropout2d 0.5),
      New_layer (Linear 9216 128), New_layer (Linear 128 10),
      Module_to (Device_name ''cpu''), CrossEntropyLoss, Model_parameters,
      OSS Adadelta (1 / 10000), ShardedDataParallel, Time_monotonic, Model_train,
      Sampler_set_epoch 0, Time_monotonic, Loader_iter, Loader_next,
      Tensor_to (Tensor 0) (Device_name ''cpu''), Tensor_to (Tensor 1) (Device_name ''cpu''),
      Optimizer_step [Model_zero_grad, Model_call (To (Tensor 0) (Device_name ''cpu'')),
         Loss_fn_call (To (Tensor 1) (Device_name ''cpu'')), Loss_backward, Return_loss],
      Loader_next, Time_monotonic, Time_monotonic, Print [Str ''Total Time:'', Num t]]"

text \<open>The network that \<^verbatim>\<open>Net()\<close> constructs, and the calls of its construction.\<close>

definition mnist_net :: net where
  "mnist_net =
     \<lparr>conv1 = Conv2d 1 32 3 1, conv2 = Conv2d 32 64 3 1, dropout1 = Dropout2d 0.25,
      dropout2 = Dropout2d 0.5, fc1 = Linear 9216 128, fc2 = Linear 128 10\<rparr>"

definition net_init_trace :: "call list" where
  "net_init_trace =
     [Module_init, New_layer (Conv2d 1 32 3 1), New_layer (Conv2d 32 64 3 1),
      New_layer (Dropout2d 0.25), New_layer (Dropout2d 0.5),
      New_layer (Linear 9216 128), New_layer (Linear 128 10)]"

section \<open>Arguments and converters\<close>

text \<open>An argument string that can follow an option as its value: the parser classifies
  it as an argument, and it is not the separator \<^verbatim>\<open>--\<close>.\<close>

definition is_argument :: "string \<Rightarrow> bool" where
  "is_argument v = (v \<noteq> ''--'' \<and> parse_optional v = Inr None)"

definition option_names :: "string list" where
  "option_names = map fst option_string_actions"

text \<open>
  A pair of converters for evaluating examples: they read decimal literals, an optional
  sign, digits and, for floats, a decimal point and an exponent (\<^verbatim>\<open>-1e-3\<close>), as Python's
  \<^verbatim>\<open>int\<close> and \<^verbatim>\<open>float\<close> do; the other notations of Python are left out (the theorems
  hold for every pair of converters).
\<close>

definition digit_value :: "char \<Rightarrow> nat" where
  "digit_value c = length (takeWhile (\<lambda>d. d \<noteq> c) ''0123456789'')"

definition digits_value :: "string \<Rightarrow> nat" where
  "digits_value ds = foldl (\<lambda>n c. 10 * n + digit_value c) 0 ds"

definition int_literal :: "string \<Rightarrow> int option" where
  "int_literal s =
    (let (negative, ds) = (case s of c # r \<Rightarrow> if c = CHR ''-'' then (True, r)
                                            else if c = CHR ''+'' then (False, r) else (False, s)
                           | [] \<Rightarrow> (False, s))
     in if ds \<noteq> [] \<and> list_all is_digit ds
        then Some (if negative then - int (digits_value ds) else int (digits_value ds))
        else None)"

definition decimal_literal :: "string \<Rightarrow> real option" where
  "decimal_literal s =
    (let (negative, r) = (case s of c # r \<Rightarrow> if c = CHR ''-'' then (True, r)
                                           else if c = CHR ''+'' then (False, r) else (False, s)
                          | [] \<Rightarrow> (False, s));
         whole = takeWhile is_digit r;
         rest = dropWhile is_digit r;
         frac = (case rest of [] \<Rightarrow> Some [] | c # f \<Rightarrow> if c = CHR ''.'' \<and> list_all is_digit f then Some f else None)
     in case frac of
          None \<Rightarrow> None
        | Some f \<Rightarrow>
            if whole = [] \<and> f = [] then None
            else Some ((if negative then -1 else 1) *
                       (real (digits_value whole) + real (digits_value f) / 10 ^ length f)))"

definition float_literal :: "string \<Rightarrow> real option" where
  "float_literal s =
    (let mantissa = takeWhile (\<lambda>c. c \<noteq> CHR ''e'' \<and> c \<noteq> CHR ''E'') s;
         exponent = dropWhile (\<lambda>c. c \<noteq> CHR ''e'' \<and> c \<noteq> CHR ''E'') s
     in case decimal_literal mantissa of
          None \<Rightarrow> None
        | Some m \<Rightarrow>
           (case exponent of
              [] \<Rightarrow> Some m
            | _ # ds \<Rightarrow>
               (case int_literal ds of
                  None \<Rightarrow> None
                | Some k \<Rightarrow> Some (if k < 0 then m / 10 ^ nat (- k) else m * 10 ^ nat k))))"

definition decimal_python :: python where
  "decimal_python = \<lparr>py_int = int_literal, py_float = float_literal\<rparr>"

section \<open>Properties of the training driver\<close>

subsection \<open>Sequencing\<close>

lemma then_m_assoc: "then_m (then_m a b) c = then_m a (then_m b c)"
  by (auto simp: then_m_def bind_m_def fun_eq_iff split: prod.splits sum.splits)

lemma bind_then_assoc: "bind_m (then_m a b) f = then_m a (bind_m b f)"
  by (auto simp: then_m_def bind_m_def fun_eq_iff split: prod.splits sum.splits)

lemma then_bind_assoc: "then_m (bind_m a f) c = bind_m a (\<lambda>x. then_m (f x) c)"
  by (auto simp: then_m_def bind_m_def fun_eq_iff split: prod.splits sum.splits)

lemma return_then: "then_m (return_m x) m = m"
  by (auto simp: then_m_def bind_m_def return_m_def fun_eq_iff)

lemma return_bind: "bind_m (return_m x) f = f x"
  by (auto simp: bind_m_def return_m_def fun_eq_iff)

lemma then_return: "then_m m (return_m ()) = m"
  by (auto simp: then_m_def bind_m_def return_m_def fun_eq_iff split: prod.splits sum.splits)

lemma raise_bind: "bind_m (raise_m e) f = raise_m e"
  by (auto simp: bind_m_def raise_m_def fun_eq_iff)

lemma run_Nil: "run w [] = return_m ()"
  by (simp add: run_def)

lemma run_Cons: "run w (c # cs) = then_m (ext w c) (run w cs)"
  by (simp add: run_def)

lemma run_append: "run w (xs @ ys) = then_m (run w xs) (run w ys)"
  by (induction xs) (simp_all add: run_Nil run_Cons return_then then_m_assoc)

lemma run_then_run: "then_m (run w xs) (then_m (run w ys) m) = then_m (run w (xs @ ys)) m"
  by (simp add: run_append then_m_assoc)

lemma run_run: "then_m (run w xs) (run w ys) = run w (xs @ ys)"
  by (simp add: run_append)

lemma ext_run: "ext w c = run w [c]"
  by (simp add: run_Cons run_Nil then_return)

lemma time_monotonic_unused: "bind_m (time_monotonic w) (\<lambda>_. m) = then_m (run w [Time_monotonic]) m"
  by (auto simp: run_Cons run_Nil time_monotonic_def then_m_def bind_m_def return_m_def fun_eq_iff split: prod.splits sum.splits)

lemma dist_init_run: "dist_init w rank ws b = run w [Print [Str (''Using backend: '' @ backend_str b)], Init_process_group b ''tcp://localhost:29501'' rank ws]"
  by (simp add: dist_init_def run_Cons run_Nil then_return)

lemma when_run: "when_m b (run w cs) = run w (if b then cs else [])"
  by (simp add: when_m_def run_Nil)

lemma Net_init_run: "bind_m (Net_init w) (\<lambda>model. m) =
   then_m (run w [Module_init, New_layer (Conv2d 1 32 3 1), New_layer (Conv2d 32 64 3 1),
      New_layer (Dropout2d 0.25), New_layer (Dropout2d 0.5),
      New_layer (Linear 9216 128), New_layer (Linear 128 10)]) m"
  by (simp add: Net_init_def new_layer_def run_Cons run_Nil then_return then_m_assoc bind_then_assoc return_bind)

lemma train_batch_run: "train_batch w device b = run w (tl (batch_calls device b))"
  by (cases b) (simp add: train_batch_def batch_calls_def run_Cons run_Nil then_return)

lemma iterate_run: "iterate w bs (train_batch w device) = run w (concat (map (batch_calls device) bs) @ [Loader_next])"
proof (induction bs)
  case Nil
  show ?case by (simp add: ext_run)
next
  case (Cons b bs)
  show ?case
    by (simp only: iterate.simps Cons)
       (simp add: train_batch_run batch_calls_def run_Cons run_Nil then_return then_m_assoc)
qed

lemma sampler_epoch_set: "sampler_epoch (tr @ [Sampler_set_epoch e, Time_monotonic, Loader_iter]) = e"
  by (simp add: sampler_epoch_def)

lemma run_success: "run w cs tr = (Inr u, tr') \<Longrightarrow> tr' = tr @ cs"
proof (induction cs arbitrary: tr)
  case Nil
  then show ?case by (simp add: run_Nil return_m_def)
next
  case (Cons c cs)
  from Cons.prems have "run w cs (tr @ [c]) = (Inr u, tr')"
    by (auto simp: run_Cons then_m_def bind_m_def ext_def split: option.splits)
  from Cons.IH [OF this] show ?case by simp
qed

lemma then_run_cong:
  assumes "X (tr @ cs) = Y (tr @ cs)"
  shows "then_m (run w cs) X tr = then_m (run w cs) Y tr"
proof (cases "run w cs tr")
  case (Pair r tr')
  show ?thesis
  proof (cases r)
    case (Inl e)
    with Pair show ?thesis by (simp add: then_m_def bind_m_def)
  next
    case (Inr u)
    with Pair have "tr' = tr @ cs" by (simp add: run_success)
    with Pair Inr assms show ?thesis by (simp add: then_m_def bind_m_def)
  qed
qed

lemma enumerate_loader_run:
  "enumerate_loader w kw rank (train_batch w device) =
     then_m (run w [Loader_iter])
       (\<lambda>tr. run w (concat (map (batch_calls device) (batches w kw rank (sampler_epoch tr))) @ [Loader_next]) tr)"
  by (simp add: enumerate_loader_def iterate_run ext_run)

lemma epoch_body_run:
  "then_m (ext w (Sampler_set_epoch epoch))
     (bind_m (time_monotonic w) (\<lambda>epoch_start.
        then_m (enumerate_loader w (loader_kwargs bs uc) rank (train_batch w (device_of rank uc)))
          (bind_m (time_monotonic w) (\<lambda>epoch_end. return_m ()))))
   = run w (epoch_calls w rank bs uc epoch)" (is "?lhs = ?rhs")
proof
  fix tr
  let ?B = "\<lambda>e. concat (map (batch_calls (device_of rank uc)) (batches w (loader_kwargs bs uc) rank e)) @ [Loader_next]"
  let ?X = "then_m (\<lambda>tr. run w (?B (sampler_epoch tr)) tr) (run w [Time_monotonic])"
  let ?Y = "then_m (run w (?B epoch)) (run w [Time_monotonic])"
  have "?lhs = then_m (run w [Sampler_set_epoch epoch, Time_monotonic, Loader_iter]) ?X"
    by (simp add: time_monotonic_unused enumerate_loader_run then_return ext_run then_m_assoc run_then_run)
  then have "?lhs tr = then_m (run w [Sampler_set_epoch epoch, Time_monotonic, Loader_iter]) ?X tr"
    by simp
  also have "\<dots> = then_m (run w [Sampler_set_epoch epoch, Time_monotonic, Loader_iter]) ?Y tr"
    by (rule then_run_cong) (simp add: then_m_def bind_m_def sampler_epoch_set)
  also have "\<dots> = ?rhs tr"
    by (simp add: epoch_calls_def then_m_assoc run_then_run run_run)
  finally show "?lhs tr = ?rhs tr" .
qed

lemma for_run:
  "for_m es (\<lambda>epoch. run w (f epoch)) = run w (concat (map f es))"
  by (induction es) (simp_all add: run_Nil run_append)

lemma kwargs_eq:
  "(if uc then dict_update [(''batch_size'', Kw_value bs), (''sampler'', Kw_sampler)]
                          [(''num_workers'', Kw_value (PInt 1)),
                           (''pin_memory'', Kw_value (PBool True)),
                           (''shuffle'', Kw_value (PBool True))]
    else [(''batch_size'', Kw_value bs), (''sampler'', Kw_sampler)]) = loader_kwargs bs uc"
  by (simp add: dict_update_def loader_kwargs_def)

lemma seq_run_Cons: "seq_m (run w cs # ms) = then_m (run w cs) (seq_m ms)"
  by simp

lemma train_structure:
  "train w rank args uc =
    then_m (run w (setup_calls w rank uc))
   (bind_m (getattr args ''batch_size'') (\<lambda>bs.
    then_m (run w (model_calls rank bs uc))
   (bind_m (time_monotonic w) (\<lambda>t0.
    then_m (run w [Model_train])
   (bind_m (getattr args ''epochs'') (\<lambda>ep.
    bind_m (py_range ep) (\<lambda>es.
    then_m (run w (concat (map (epoch_calls w rank bs uc) es) @ (if uc then [Cuda_synchronize rank] else [])))
   (bind_m (time_monotonic w) (\<lambda>t1. ext w (Print [Str ''Total Time:'', Num (t1 - t0)]))))))))))"
proof -
  have body: "\<And>bs. (\<lambda>epoch. then_m (ext w (Sampler_set_epoch epoch))
     (bind_m (time_monotonic w) (\<lambda>epoch_start.
        then_m (enumerate_loader w (loader_kwargs bs uc) rank (train_batch w (device_of rank uc)))
          (bind_m (time_monotonic w) (\<lambda>epoch_end. return_m ()))))) = (\<lambda>epoch. run w (epoch_calls w rank bs uc epoch))"
    by (simp add: epoch_body_run)
  show ?thesis
    unfolding train_def Let_def kwargs_eq device_of_def [symmetric] body for_run
    by (simp add: dist_init_run ext_run when_run Net_init_run setup_calls_def model_calls_def
          then_m_assoc run_then_run run_run then_return)
qed

lemma bind_time:
  "then_m (run w cs) (bind_m (time_monotonic w) F) tr =
   then_m (run w (cs @ [Time_monotonic])) (F (monotonic w (count_list (tr @ cs) Time_monotonic))) tr"
proof -
  have "then_m (run w cs) (bind_m (time_monotonic w) F) tr =
        then_m (run w cs) (then_m (run w [Time_monotonic]) (F (monotonic w (count_list (tr @ cs) Time_monotonic)))) tr"
    by (rule then_run_cong)
       (auto simp: run_Cons run_Nil time_monotonic_def then_m_def bind_m_def return_m_def
             split: prod.splits sum.splits)
  then show ?thesis by (simp add: run_then_run)
qed

lemma count_batch_calls: "count_list (concat (map (batch_calls d) bs)) Time_monotonic = 0"
  by (induction bs) (simp_all add: batch_calls_def)

lemma count_epoch_calls: "count_list (epoch_calls w rank bs uc e) Time_monotonic = 2"
  by (simp add: epoch_calls_def count_batch_calls)

lemma count_epochs: "count_list (concat (map (epoch_calls w rank bs uc) es)) Time_monotonic = 2 * length es"
  by (induction es) (simp_all add: count_epoch_calls)

lemma count_setup: "count_list (setup_calls w rank uc) Time_monotonic = 0"
  by (simp add: setup_calls_def)

lemma count_model: "count_list (model_calls rank bs uc) Time_monotonic = 0"
  by (simp add: model_calls_def)

lemma train_run:
  assumes bs: "args ''batch_size'' = Some bs" and ep: "args ''epochs'' = Some ep"
    and nf: "\<forall>x. ep \<noteq> PFloat x"
  shows "train w rank args uc tr =
    run w (planned_calls w rank bs uc (epoch_list ep) @
           [Print [Str ''Total Time:'',
                   Num (monotonic w (count_list tr Time_monotonic + 2 * length (epoch_list ep) + 1)
                        - monotonic w (count_list tr Time_monotonic))]]) tr"
proof -
  let ?es = "epoch_list ep"
  let ?k = "count_list tr Time_monotonic"
  let ?L = "concat (map (epoch_calls w rank bs uc) ?es) @ (if uc then [Cuda_synchronize rank] else [])"
  let ?P = "\<lambda>t1 t0. ext w (Print [Str ''Total Time:'', Num (t1 - t0)])"
  have rng: "py_range ep = return_m ?es"
    using nf by (cases ep) (simp_all add: py_range_def epoch_list_def)
  have "train w rank args uc tr =
      then_m (run w (setup_calls w rank uc @ model_calls rank bs uc))
        (bind_m (time_monotonic w) (\<lambda>t0.
           then_m (run w (Model_train # ?L)) (bind_m (time_monotonic w) (\<lambda>t1. ?P t1 t0)))) tr"
    by (simp add: train_structure getattr_def bs ep rng return_bind run_then_run)
  also have "\<dots> = then_m (run w (setup_calls w rank uc @ model_calls rank bs uc @ [Time_monotonic]))
           (then_m (run w (Model_train # ?L)) (bind_m (time_monotonic w) (\<lambda>t1. ?P t1 (monotonic w ?k)))) tr"
    by (simp add: bind_time count_setup count_model)
  also have "\<dots> = then_m (run w (setup_calls w rank uc @ model_calls rank bs uc @ [Time_monotonic] @ Model_train # ?L))
           (bind_m (time_monotonic w) (\<lambda>t1. ?P t1 (monotonic w ?k))) tr"
    by (simp add: run_then_run)
  also have "\<dots> = then_m (run w (setup_calls w rank uc @ model_calls rank bs uc @ [Time_monotonic] @ Model_train # ?L @ [Time_monotonic]))
           (?P (monotonic w (?k + 2 * length ?es + 1)) (monotonic w ?k)) tr"
    by (simp add: bind_time count_setup count_model count_epochs)
  also have "\<dots> = run w (planned_calls w rank bs uc ?es @
           [Print [Str ''Total Time:'', Num (monotonic w (?k + 2 * length ?es + 1) - monotonic w ?k)]]) tr"
    by (simp add: planned_calls_def loop_calls_def ext_run run_run)
  finally show ?thesis .
qed

lemma train_no_batch_size:
  assumes "args ''batch_size'' = None"
  shows "train w rank args uc = then_m (run w (setup_calls w rank uc)) (raise_m (AttributeError ''batch_size''))"
  by (simp add: train_structure getattr_def assms raise_bind)

lemma train_no_epochs:
  assumes "args ''batch_size'' = Some bs" "args ''epochs'' = None"
  shows "train w rank args uc tr =
     then_m (run w (setup_calls w rank uc @ model_calls rank bs uc @ [Time_monotonic, Model_train]))
            (raise_m (AttributeError ''epochs'')) tr"
proof -
  have "train w rank args uc tr =
      then_m (run w (setup_calls w rank uc @ model_calls rank bs uc))
        (bind_m (time_monotonic w) (\<lambda>t0. then_m (run w [Model_train]) (raise_m (AttributeError ''epochs'')))) tr"
    by (simp add: train_structure getattr_def assms return_bind raise_bind run_then_run)
  then show ?thesis by (simp add: bind_time run_then_run)
qed

lemma train_float_epochs:
  assumes "args ''batch_size'' = Some bs" "args ''epochs'' = Some (PFloat x)"
  shows "train w rank args uc tr =
     then_m (run w (setup_calls w rank uc @ model_calls rank bs uc @ [Time_monotonic, Model_train]))
            (raise_m TypeError) tr"
proof -
  have "train w rank args uc tr =
      then_m (run w (setup_calls w rank uc @ model_calls rank bs uc))
        (bind_m (time_monotonic w) (\<lambda>t0. then_m (run w [Model_train]) (raise_m TypeError))) tr"
    by (simp add: train_structure getattr_def assms return_bind raise_bind run_then_run py_range_def)
  then show ?thesis by (simp add: bind_time run_then_run)
qed

lemma run_step:
  "run w (c # cs) tr =
    (case outcome w tr c of Some e \<Rightarrow> (Inl e, tr @ [c]) | None \<Rightarrow> run w cs (tr @ [c]))"
  by (simp add: run_Cons then_m_def bind_m_def ext_def split: option.splits)

lemma run_prefix:
  "run w cs tr = (r, tr') \<Longrightarrow> \<exists>k\<le>length cs. tr' = tr @ take k cs \<and> (r = Inr () \<longrightarrow> k = length cs)"
proof (induction cs arbitrary: tr)
  case Nil
  then show ?case by (simp add: run_Nil return_m_def)
next
  case (Cons c cs)
  show ?case
  proof (cases "outcome w tr c")
    case None
    with Cons.prems have "run w cs (tr @ [c]) = (r, tr')" by (simp add: run_step)
    from Cons.IH [OF this] obtain k where "k \<le> length cs" "tr' = (tr @ [c]) @ take k cs"
      "r = Inr () \<longrightarrow> k = length cs" by blast
    then show ?thesis by (intro exI [of _ "Suc k"]) simp
  next
    case (Some e)
    with Cons.prems have "r = Inl e" "tr' = tr @ [c]" by (simp_all add: run_step)
    then show ?thesis by (intro exI [of _ "Suc 0"]) simp
  qed
qed


lemma fail_fast_step:
  assumes "outcome w tr c = None" and "fail_fast w (tr @ [c]) (r, tr')"
  shows "fail_fast w tr (r, tr')"
proof -
  from assms(2) obtain new where new: "tr' = (tr @ [c]) @ new"
    and a: "\<forall>i<length new. \<forall>e. outcome w ((tr @ [c]) @ take i new) (new ! i) = Some e \<longrightarrow>
             r = Inl e \<and> Suc i = length new"
    and b: "\<forall>e. r = Inl e \<longrightarrow>
             (new \<noteq> [] \<and> outcome w ((tr @ [c]) @ butlast new) (last new) = Some e) \<or>
             (e \<in> own_errors \<and> (\<forall>i<length new. outcome w ((tr @ [c]) @ take i new) (new ! i) = None))"
    unfolding fail_fast_def by auto
  have 1: "tr' = tr @ (c # new)" using new by simp
  have 2: "\<forall>i<length (c # new). \<forall>e. outcome w (tr @ take i (c # new)) ((c # new) ! i) = Some e \<longrightarrow>
             r = Inl e \<and> Suc i = length (c # new)"
  proof (intro allI impI)
    fix i e assume i: "i < length (c # new)" and o: "outcome w (tr @ take i (c # new)) ((c # new) ! i) = Some e"
    show "r = Inl e \<and> Suc i = length (c # new)"
    proof (cases i)
      case 0
      with o assms(1) show ?thesis by simp
    next
      case (Suc j)
      with i o a show ?thesis by simp
    qed
  qed
  have 3: "\<forall>e. r = Inl e \<longrightarrow>
             (c # new \<noteq> [] \<and> outcome w (tr @ butlast (c # new)) (last (c # new)) = Some e) \<or>
             (e \<in> own_errors \<and> (\<forall>i<length (c # new). outcome w (tr @ take i (c # new)) ((c # new) ! i) = None))"
  proof (intro allI impI)
    fix e assume "r = Inl e"
    with b consider "new \<noteq> []" "outcome w ((tr @ [c]) @ butlast new) (last new) = Some e"
      | "e \<in> own_errors" "\<forall>i<length new. outcome w ((tr @ [c]) @ take i new) (new ! i) = None"
      by blast
    then show "(c # new \<noteq> [] \<and> outcome w (tr @ butlast (c # new)) (last (c # new)) = Some e) \<or>
             (e \<in> own_errors \<and> (\<forall>i<length (c # new). outcome w (tr @ take i (c # new)) ((c # new) ! i) = None))"
    proof cases
      case 1
      then show ?thesis by simp
    next
      case 2
      have "\<forall>i<length (c # new). outcome w (tr @ take i (c # new)) ((c # new) ! i) = None"
      proof (intro allI impI)
        fix i assume "i < length (c # new)"
        then show "outcome w (tr @ take i (c # new)) ((c # new) ! i) = None"
          using 2(2) assms(1) by (cases i) simp_all
      qed
      with 2(1) show ?thesis by blast
    qed
  qed
  show ?thesis unfolding fail_fast_def using 1 2 3 by blast
qed

lemma fail_fast_run_raise:
  assumes "E \<in> own_errors"
  shows "fail_fast w tr (then_m (run w cs) (raise_m E) tr)"
proof (induction cs arbitrary: tr)
  case Nil
  show ?case using assms
    by (simp add: run_Nil return_then raise_m_def fail_fast_def)
next
  case (Cons c cs)
  show ?case
  proof (cases "outcome w tr c")
    case None
    then have eq: "then_m (run w (c # cs)) (raise_m E :: unit m) tr = then_m (run w cs) (raise_m E) (tr @ [c])"
      by (simp add: then_m_def bind_m_def run_step)
    obtain r :: "py_exn + unit" and tr' where res: "then_m (run w cs) (raise_m E) (tr @ [c]) = (r, tr')" by force
    with Cons [of "tr @ [c]"] have "fail_fast w (tr @ [c]) (r, tr')" by simp
    from fail_fast_step [OF None this] show ?thesis by (simp add: eq res)
  next
    case (Some e)
    then have "then_m (run w (c # cs)) (raise_m E :: unit m) tr = (Inl e, tr @ [c])"
      by (simp add: then_m_def bind_m_def run_step)
    with Some show ?thesis by (simp add: fail_fast_def)
  qed
qed

lemma fail_fast_run: "fail_fast w tr (run w cs tr)"
proof (induction cs arbitrary: tr)
  case Nil
  show ?case by (simp add: run_Nil return_m_def fail_fast_def)
next
  case (Cons c cs)
  show ?case
  proof (cases "outcome w tr c")
    case None
    obtain r tr' where res: "run w cs (tr @ [c]) = (r, tr')" by force
    with Cons [of "tr @ [c]"] have "fail_fast w (tr @ [c]) (r, tr')" by simp
    from fail_fast_step [OF None this] show ?thesis by (simp add: run_step None res)
  next
    case (Some e)
    then show ?thesis by (simp add: run_step fail_fast_def)
  qed
qed

lemma outcome_cuda_loader: "outcome w h (DataLoader (loader_kwargs bs True)) = Some ValueError"
  by (simp add: outcome_def loader_kwargs_def truthy_def)

lemma run_stops:
  assumes "\<And>h. outcome w h c = Some E" and "run w (xs @ c # ys) tr = (r, tr')"
  shows "(\<exists>e k. r = Inl e \<and> k \<le> length xs \<and> tr' = tr @ take k xs) \<or> (r = Inl E \<and> tr' = tr @ xs @ [c])"
proof (cases "run w xs tr")
  case (Pair r1 tr1)
  show ?thesis
  proof (cases r1)
    case (Inl e)
    with Pair assms(2) have "r = Inl e" "tr' = tr1"
      by (simp_all add: run_append then_m_def bind_m_def)
    moreover from run_prefix [OF Pair] obtain k where "k \<le> length xs" "tr1 = tr @ take k xs" by blast
    ultimately show ?thesis by blast
  next
    case (Inr u)
    with Pair have "tr1 = tr @ xs" by (simp add: run_success)
    with Pair Inr assms show ?thesis
      by (simp add: run_append then_m_def bind_m_def run_step)
  qed
qed

lemma setup_no_loop: "c \<in> set (setup_calls w rank uc) \<Longrightarrow> \<not> training_call c \<and> (\<forall>kw. c \<noteq> DataLoader kw)"
  by (auto simp: setup_calls_def training_call_def split: if_splits)

lemma then_raise_prefix:
  assumes "then_m (run w cs) (raise_m E) tr = (r, tr')"
  shows "\<exists>e k. r = Inl e \<and> k \<le> length cs \<and> tr' = tr @ take k cs"
proof (cases "run w cs tr")
  case (Pair r1 tr1)
  from run_prefix [OF Pair] obtain k where k: "k \<le> length cs" "tr1 = tr @ take k cs" by blast
  with Pair assms show ?thesis
    by (cases r1) (auto simp: then_m_def bind_m_def raise_m_def)
qed

lemma default_namespace_eq:
  "default_namespace =
    [''batch_size'' \<mapsto> PInt 64, ''test_batch_size'' \<mapsto> PInt 1000, ''epochs'' \<mapsto> PInt 14,
     ''lr'' \<mapsto> PFloat 1, ''gamma'' \<mapsto> PFloat (7 / 10), ''no_cuda'' \<mapsto> PBool False,
     ''dry_run'' \<mapsto> PBool False, ''seed'' \<mapsto> PInt 1, ''log_interval'' \<mapsto> PInt 10,
     ''save_model'' \<mapsto> PBool False]"
  by (simp add: default_namespace_def parser_actions_def add_argument_def help_action_def dest_def)

lemma one_epoch_attrs: "one_epoch ''batch_size'' = Some (PInt 64)" "one_epoch ''epochs'' = Some (PInt 1)"
  by (simp_all add: one_epoch_def default_namespace_eq)

lemma offline_run:
  "train offline_world 0 one_epoch False [] = (Inl (Library_error ''RuntimeError''), offline_trace)"
  by (simp add: train_run [OF one_epoch_attrs] planned_calls_def setup_calls_def run_step outcome_def
        offline_world_def quiet_world_def BACKEND_def backend_str_def WORLD_SIZE_def device_of_def
        offline_trace_def)

lemma quiet_run: "train quiet_world 0 one_epoch False [] = (Inr (), quiet_trace 3)"
  by (simp add: train_run [OF one_epoch_attrs] planned_calls_def setup_calls_def model_calls_def
        loop_calls_def epoch_calls_def batch_calls_def closure_def epoch_list_def loader_kwargs_def
        run_step run_Nil return_m_def outcome_def quiet_world_def BACKEND_def backend_str_def
        WORLD_SIZE_def device_of_def quiet_trace_def)


lemma cuda_run: "train cuda_world 0 one_epoch True [] = (Inl ValueError, cuda_trace)"
  by (simp add: train_run [OF one_epoch_attrs] planned_calls_def setup_calls_def model_calls_def
        loader_kwargs_def run_step outcome_def truthy_def quiet_world_def cuda_world_def BACKEND_def
        backend_str_def WORLD_SIZE_def device_of_def cuda_trace_def cuda_kwargs_def)

lemma train_is_run:
  "(\<exists>cs. train w rank args uc [] = run w cs []) \<or>
   (\<exists>cs E. E \<in> own_errors \<and> train w rank args uc [] = then_m (run w cs) (raise_m E) [])"
proof (cases "args ''batch_size''")
  case None
  then show ?thesis by (auto simp: train_no_batch_size own_errors_def)
next
  case (Some bs)
  show ?thesis
  proof (cases "args ''epochs''")
    case None
    with Some show ?thesis using train_no_epochs [of args bs w rank uc "[]"]
      by (auto simp: own_errors_def)
  next
    case ep: (Some ep)
    show ?thesis
    proof (cases "\<exists>x. ep = PFloat x")
      case True
      with Some ep show ?thesis using train_float_epochs [of args bs _ w rank uc "[]"]
        by (auto simp: own_errors_def)
    next
      case False
      with Some ep show ?thesis using train_run [of args bs ep w rank uc "[]"] by blast
    qed
  qed
qed

subsection \<open>The shape of a run\<close>

lemma train_cases:
  "(\<exists>cs E. E \<in> own_errors \<and> (train w rank args uc [] :: (py_exn + unit) \<times> call list) = then_m (run w cs) (raise_m E) [] \<and>
       (cs = setup_calls w rank uc \<and> args ''batch_size'' = None \<or>
        (\<exists>bs. args ''batch_size'' = Some bs \<and> (args ''epochs'' = None \<or> (\<exists>x. args ''epochs'' = Some (PFloat x))) \<and>
           cs = setup_calls w rank uc @ model_calls rank bs uc @ [Time_monotonic, Model_train]))) \<or>
   (\<exists>bs ep. args ''batch_size'' = Some bs \<and> args ''epochs'' = Some ep \<and> (\<forall>x. ep \<noteq> PFloat x) \<and>
       train w rank args uc [] =
         run w (planned_calls w rank bs uc (epoch_list ep) @
                [Print [Str ''Total Time:'', Num (total_time w (epoch_list ep))]]) [])"
proof (cases "args ''batch_size''")
  case None
  then have "train w rank args uc [] = then_m (run w (setup_calls w rank uc)) (raise_m (AttributeError ''batch_size'')) []"
    by (simp add: train_no_batch_size)
  moreover have "AttributeError ''batch_size'' \<in> own_errors" by (simp add: own_errors_def)
  ultimately show ?thesis using None by blast
next
  case (Some bs)
  show ?thesis
  proof (cases "args ''epochs''")
    case None
    from train_no_epochs [OF Some None]
    have "train w rank args uc [] = then_m (run w (setup_calls w rank uc @ model_calls rank bs uc @ [Time_monotonic, Model_train])) (raise_m (AttributeError ''epochs'')) []" .
    moreover have "AttributeError ''epochs'' \<in> own_errors" by (simp add: own_errors_def)
    ultimately show ?thesis using Some None by blast
  next
    case ep: (Some ep)
    show ?thesis
    proof (cases "\<exists>x. ep = PFloat x")
      case True
      then obtain x where x: "args ''epochs'' = Some (PFloat x)" using ep by auto
      from train_float_epochs [OF Some x]
      have "train w rank args uc [] = then_m (run w (setup_calls w rank uc @ model_calls rank bs uc @ [Time_monotonic, Model_train])) (raise_m TypeError) []" .
      moreover have "TypeError \<in> own_errors" by (simp add: own_errors_def)
      ultimately show ?thesis using Some x by blast
    next
      case False
      then have nf: "\<forall>x. ep \<noteq> PFloat x" by simp
      from train_run [OF Some ep nf, of w rank uc "[]"]
      have "train w rank args uc [] =
         run w (planned_calls w rank bs uc (epoch_list ep) @
                [Print [Str ''Total Time:'', Num (total_time w (epoch_list ep))]]) []"
        by (simp add: total_time_def)
      with Some ep nf show ?thesis by blast
    qed
  qed
qed





lemma training_call_simps:
    "training_call (Print a1) = False"
    "training_call (Init_process_group b1 b2 b3 b4) = False"
    "training_call (Cuda_set_device c1) = False"
    "training_call (Torch_device d1) = False"
    "training_call ToTensor = False"
    "training_call (Normalize f1 f2) = False"
    "training_call Compose = False"
    "training_call (MNIST h1 h2 h3) = False"
    "training_call (DistributedSampler i1 i2) = False"
    "training_call (DataLoader j1) = False"
    "training_call Module_init = False"
    "training_call (New_layer l1) = False"
    "training_call (Module_to m1) = False"
    "training_call CrossEntropyLoss = False"
    "training_call Model_parameters = False"
    "training_call (OSS p1 p2) = False"
    "training_call ShardedDataParallel = False"
    "training_call (Cuda_reset_peak_memory_stats r1) = False"
    "training_call (Cuda_synchronize s1) = False"
    "training_call Time_monotonic = True"
    "training_call Model_train = True"
    "training_call (Sampler_set_epoch v1) = True"
    "training_call Loader_iter = True"
    "training_call Loader_next = True"
    "training_call (Tensor_to y1 y2) = True"
    "training_call (Optimizer_step z1) = True"
  by (simp_all add: training_call_def)














lemma train_two_cases:
  "(\<exists>cs E. (train w rank args uc [] :: (py_exn + unit) \<times> call list) = then_m (run w cs) (raise_m E) []) \<or>
   (\<exists>bs ep. train w rank args uc [] =
         run w (planned_calls w rank bs uc (epoch_list ep) @
                [Print [Str ''Total Time:'', Num (total_time w (epoch_list ep))]]) [])"
  using train_cases [of w rank args uc] by blast

subsection \<open>The clock, the arguments and the network\<close>









lemma train_only_reads:
  assumes "args' ''batch_size'' = args ''batch_size''" and "args' ''epochs'' = args ''epochs''"
  shows "train w rank args' uc = train w rank args uc"
  by (simp add: train_structure getattr_def assms)

lemma OSS_in_planned:
  "OSS opt lr \<in> set (planned_calls w rank bs uc es @ [Print x]) \<Longrightarrow> opt = Adadelta \<and> lr = 1 / 10000"
  by (auto simp: planned_calls_def setup_calls_def model_calls_def loop_calls_def epoch_calls_def
        batch_calls_def split: if_splits)

lemma OSS_planned: "OSS Adadelta (1 / 10000) \<in> set (planned_calls w rank bs uc es)"
  by (simp add: planned_calls_def model_calls_def)

lemma setup_prefix_planned:
  "prefix (setup_calls w rank uc) (planned_calls w rank bs uc es @ [Print x])"
  by (simp add: planned_calls_def)

lemma setup_model_prefix_planned:
  "prefix (setup_calls w rank uc @ model_calls rank bs uc @ [Time_monotonic, Model_train])
          (planned_calls w rank bs uc es @ [Print x])"
  by (simp add: planned_calls_def)

lemma train_trace_prefix:
  assumes "train w rank args uc [] = (r, tr)"
  shows "\<exists>bs es x. prefix tr (planned_calls w rank bs uc es @ [Print x])"
proof -
  from train_cases [of w rank args uc]
  consider (raised) cs E bs where "train w rank args uc [] = then_m (run w cs) (raise_m E) []"
      "cs = setup_calls w rank uc \<or> cs = setup_calls w rank uc @ model_calls rank bs uc @ [Time_monotonic, Model_train]"
    | (ok) bs ep where "train w rank args uc [] =
         run w (planned_calls w rank bs uc (epoch_list ep) @
                [Print [Str ''Total Time:'', Num (total_time w (epoch_list ep))]]) []"
    by blast
  then show ?thesis
  proof cases
    case raised
    with assms have "then_m (run w cs) (raise_m E) [] = (r, tr)" by simp
    from then_raise_prefix [OF this] have "prefix tr cs" by (auto simp: take_is_prefix)
    moreover from raised(2) have "prefix cs (planned_calls w rank bs uc [] @ [Print []])"
      using setup_prefix_planned setup_model_prefix_planned by metis
    ultimately show ?thesis using prefix_order.trans by blast
  next
    case ok
    with assms have "run w (planned_calls w rank bs uc (epoch_list ep) @
                [Print [Str ''Total Time:'', Num (total_time w (epoch_list ep))]]) [] = (r, tr)" by simp
    from run_prefix [OF this] obtain k where
      "tr = [] @ take k (planned_calls w rank bs uc (epoch_list ep) @
                [Print [Str ''Total Time:'', Num (total_time w (epoch_list ep))]])" by blast
    then have "prefix tr (planned_calls w rank bs uc (epoch_list ep) @
                [Print [Str ''Total Time:'', Num (total_time w (epoch_list ep))]])"
      by (simp only: append_Nil take_is_prefix)
    then show ?thesis by blast
  qed
qed

lemma Net_init_result:
  assumes "Net_init w tr = (Inr self, tr')"
  shows "self = \<lparr>conv1 = Conv2d 1 32 3 1, conv2 = Conv2d 32 64 3 1, dropout1 = Dropout2d 0.25,
                 dropout2 = Dropout2d 0.5, fc1 = Linear 9216 128, fc2 = Linear 128 10\<rparr>"
  using assms
  by (auto simp: Net_init_def new_layer_def then_m_def bind_m_def return_m_def ext_def
           split: option.splits)

lemma Net_init_quiet: "Net_init quiet_world [] = (Inr mnist_net, net_init_trace)"
  by (simp add: Net_init_def new_layer_def then_m_def bind_m_def return_m_def ext_def outcome_def
        quiet_world_def mnist_net_def net_init_trace_def)

section \<open>Properties of the argument parser\<close>

declare consume_optional_loop.simps [simp del]

declare consume.simps [simp del]

lemma option_names_eq:
  "option_names = [''-h'', ''--help'', ''--batch_size'', ''--test_batch_size'', ''--epochs'', ''--lr'',
     ''--gamma'', ''--no_cuda'', ''--dry_run'', ''--seed'', ''--log_interval'', ''--save_model'']"
  by (simp add: option_names_def option_string_actions_def parser_actions_def add_argument_def help_action_def)

lemma option_in_names: "map_of option_string_actions s = Some a \<Longrightarrow> s \<in> set option_names"
  unfolding option_names_def by (metis map_of_SomeD fst_conv image_eqI set_map)

lemma option_dash:
  assumes "map_of option_string_actions s = Some a"
  shows "s \<noteq> [] \<and> hd s = CHR ''-'' \<and> s \<noteq> ''--''"
  using option_in_names [OF assms] unfolding option_names_eq by auto

lemma parse_optional_option:
  assumes "map_of option_string_actions s = Some a"
  shows "parse_optional s = Inr (Some (Some a, s, None, None))"
  using option_dash [OF assms] assms by (simp add: parse_optional_def)

lemma pattern_append:
  assumes "arg_strings_pattern ws = Inr pat" and "''--'' \<notin> set ws" and "arg_strings_pattern xs = Inr pxs"
  shows "arg_strings_pattern (ws @ xs) = Inr (pat @ pxs)"
  using assms
proof (induction ws arbitrary: pat)
  case Nil
  then show ?case by simp
next
  case (Cons w ws)
  from Cons.prems(2) have w: "w \<noteq> ''--''" and ws: "''--'' \<notin> set ws" by auto
  from Cons.prems(1) w obtain t p where t: "parse_optional w = Inr t"
      and p: "arg_strings_pattern ws = Inr p"
      and pat: "pat = (case t of None \<Rightarrow> Class_A | Some t \<Rightarrow> Class_O t) # p"
    by (auto split: sum.splits)
  from Cons.IH [OF p ws Cons.prems(3)] have "arg_strings_pattern (ws @ xs) = Inr (p @ pxs)" .
  with w t pat show ?case by simp
qed

lemma pattern_length: "arg_strings_pattern ws = Inr pat \<Longrightarrow> length pat = length ws"
proof (induction ws arbitrary: pat)
  case Nil
  then show ?case by simp
next
  case (Cons w ws)
  show ?case
  proof (cases "w = ''--''")
    case True
    with Cons.prems show ?thesis by auto
  next
    case False
    with Cons.prems obtain t p where "arg_strings_pattern ws = Inr p"
      "pat = (case t of None \<Rightarrow> Class_A | Some t \<Rightarrow> Class_O t) # p"
      by (auto split: sum.splits)
    with Cons.IH [of p] show ?thesis by simp
  qed
qed

lemma pattern_store:
  assumes "map_of option_string_actions s = Some a" and "is_argument v"
  shows "arg_strings_pattern [s, v] = Inr [Class_O (Some a, s, None, None), Class_A]"
  using assms option_dash [OF assms(1)]
  by (simp add: parse_optional_option is_argument_def)


lemma pattern_bare:
  assumes "t = [] \<or> hd t \<noteq> CHR ''-''"
  shows "arg_strings_pattern [t] = Inr [Class_A]"
proof -
  from assms have "t \<noteq> ''--''" by auto
  moreover from assms have "parse_optional t = Inr None" by (auto simp: parse_optional_def)
  ultimately show ?thesis by simp
qed

lemma match_argument_cases:
  "match_argument a p = Inr n \<Longrightarrow> n = 0 \<and> (\<forall>ty. kind a \<noteq> Store ty) \<or> n = 1 \<and> (\<exists>ty. kind a = Store ty) \<and> (\<exists>q. p = Class_A # q)"
  by (auto simp: match_argument_def split: action_kind.splits list.splits arg_class.splits)

lemma match_argument_append:
  "match_argument a p = Inr n \<Longrightarrow> match_argument a (p @ q) = Inr n"
  by (auto simp: match_argument_def split: action_kind.splits list.splits arg_class.splits)

lemma loop_count:
  "consume_optional_loop sp fol a os sep e ts = Inr (ts', n, added) \<Longrightarrow>
     n = 0 \<or> n = 1 \<and> (\<exists>q. sp = Class_A # q)"
proof (induction sp fol a os sep e ts rule: consume_optional_loop.induct)
  case (1 sp fol a os sep e ts)
  show ?case
  proof (cases e)
    case None
    with "1.prems" show ?thesis
      by (subst (asm) consume_optional_loop.simps) (auto split: sum.splits dest: match_argument_cases)
  next
    case (Some x)
    with "1.prems" "1.IH" show ?thesis
      by (subst (asm) consume_optional_loop.simps)
         (auto simp: Let_def split: sum.splits if_splits option.splits)
  qed
qed

lemma loop_append:
  "consume_optional_loop sp fol a os sep e ts = Inr res \<Longrightarrow> length sp = length fol \<Longrightarrow>
     consume_optional_loop (sp @ p') (fol @ f') a os sep e ts = Inr res"
proof (induction sp fol a os sep e ts rule: consume_optional_loop.induct)
  case (1 sp fol a os sep e ts)
  show ?case
  proof (cases e)
    case None
    from "1.prems"(1) None obtain n where n: "match_argument a sp = Inr n"
        and res: "res = (ts @ [(a, take n fol, os)], n, [])"
      by (subst (asm) consume_optional_loop.simps) (auto split: sum.splits)
    from match_argument_cases [OF n] "1.prems"(2) have "take n (fol @ f') = take n fol"
      by auto
    with None n res match_argument_append [OF n, of p'] show ?thesis
      by (subst consume_optional_loop.simps) simp
  next
    case (Some x)
    with "1.prems" "1.IH" show ?thesis
      by (subst (asm) consume_optional_loop.simps, subst consume_optional_loop.simps)
         (auto simp: Let_def split: sum.splits if_splits option.splits)
  qed
qed

lemma optional_count:
  assumes "consume_optional py t s sp fol ns ex = Inr (n, ns', ex')"
  shows "(n = 0 \<or> n = 1 \<and> (\<exists>q. sp = Class_A # q)) \<and> (\<exists>added. ex' = ex @ added)"
  using assms
  by (auto simp: consume_optional_def split: prod.splits option.splits sum.splits dest: loop_count)

lemma optional_append:
  assumes "consume_optional py t s sp fol ns ex = Inr res" and "length sp = length fol"
  shows "consume_optional py t s (sp @ p') (fol @ f') ns ex = Inr res"
  using assms
  by (auto simp: consume_optional_def loop_append split: prod.splits option.splits sum.splits)

lemma consume_extras:
  "consume py ws pat ns ex = Inr (ns', ex') \<Longrightarrow> \<exists>added. ex' = ex @ added"
proof (induction py ws pat ns ex rule: consume.induct)
  case (1 py pattern ns extras)
  then show ?case by (simp add: consume.simps)
next
  case (2 py arg_string rest pattern ns extras)
  show ?case
  proof (cases pattern)
    case Nil
    with "2.prems" show ?thesis by (auto simp: consume.simps)
  next
    case (Cons c sp)
    show ?thesis
    proof (cases c)
      case (Class_O t)
      with Cons "2.prems" obtain n ns1 ex1 where
          o: "consume_optional py t arg_string sp rest ns extras = Inr (n, ns1, ex1)"
          and r: "consume py (drop n rest) (drop n sp) ns1 ex1 = Inr (ns', ex')"
        by (auto simp: consume.simps split: sum.splits)
      from "2.IH"(1) [OF Cons Class_O o refl refl r] optional_count [OF o]
      show ?thesis by auto
    next
      case Class_A
      with Cons "2.prems" have "consume py rest sp ns (extras @ [arg_string]) = Inr (ns', ex')"
        by (simp add: consume.simps)
      from "2.IH"(2) [OF Cons Class_A this] show ?thesis by auto
    next
      case Class_dash
      with Cons "2.prems" have "consume py rest sp ns (extras @ [arg_string]) = Inr (ns', ex')"
        by (simp add: consume.simps)
      from "2.IH"(3) [OF Cons Class_dash this] show ?thesis by auto
    qed
  qed
qed

lemma consume_append:
  "consume py ws pat ns ex = Inr (ns', ex') \<Longrightarrow> length pat = length ws \<Longrightarrow>
     consume py (ws @ xs) (pat @ pxs) ns ex = consume py xs pxs ns' ex'"
proof (induction py ws pat ns ex rule: consume.induct)
  case (1 py pattern ns extras)
  then show ?case by (simp add: consume.simps)
next
  case (2 py arg_string rest pattern ns extras)
  show ?case
  proof (cases pattern)
    case Nil
    with "2.prems" show ?thesis by simp
  next
    case (Cons c sp)
    with "2.prems"(2) have len: "length sp = length rest" by simp
    show ?thesis
    proof (cases c)
      case (Class_O t)
      with Cons "2.prems" obtain n ns1 ex1 where
          o: "consume_optional py t arg_string sp rest ns extras = Inr (n, ns1, ex1)"
          and r: "consume py (drop n rest) (drop n sp) ns1 ex1 = Inr (ns', ex')"
        by (auto simp: consume.simps split: sum.splits)
      from optional_count [OF o] len have n: "n \<le> length rest" by auto
      from "2.IH"(1) [OF Cons Class_O o refl refl r] len
      have "consume py (drop n rest @ xs) (drop n sp @ pxs) ns1 ex1 = consume py xs pxs ns' ex'"
        by simp
      with optional_append [OF o len, of pxs xs] n len Cons Class_O show ?thesis
        by (simp add: consume.simps)
    next
      case Class_A
      with Cons "2.prems" have "consume py rest sp ns (extras @ [arg_string]) = Inr (ns', ex')"
        by (simp add: consume.simps)
      from "2.IH"(2) [OF Cons Class_A this len] Cons Class_A show ?thesis
        by (simp add: consume.simps)
    next
      case Class_dash
      with Cons "2.prems" have "consume py rest sp ns (extras @ [arg_string]) = Inr (ns', ex')"
        by (simp add: consume.simps)
      from "2.IH"(3) [OF Cons Class_dash this len] Cons Class_dash show ?thesis
        by (simp add: consume.simps)
    qed
  qed
qed

lemma consume_dash:
  "consume py ws pat ns ex = Inr (ns', ex') \<Longrightarrow> length pat = length ws \<Longrightarrow>
     Class_dash \<in> set pat \<Longrightarrow> ex' \<noteq> []"
proof (induction py ws pat ns ex rule: consume.induct)
  case (1 py pattern ns extras)
  then show ?case by simp
next
  case (2 py arg_string rest pattern ns extras)
  show ?case
  proof (cases pattern)
    case Nil
    with "2.prems" show ?thesis by simp
  next
    case (Cons c sp)
    with "2.prems"(2) have len: "length sp = length rest" by simp
    show ?thesis
    proof (cases c)
      case (Class_O t)
      with Cons "2.prems" obtain n ns1 ex1 where
          o: "consume_optional py t arg_string sp rest ns extras = Inr (n, ns1, ex1)"
          and r: "consume py (drop n rest) (drop n sp) ns1 ex1 = Inr (ns', ex')"
        by (auto simp: consume.simps split: sum.splits)
      from optional_count [OF o] "2.prems"(3) Cons Class_O
      have "Class_dash \<in> set (drop n sp)" by auto
      with "2.IH"(1) [OF Cons Class_O o refl refl r] len show ?thesis by simp
    next
      case Class_A
      with Cons "2.prems" have "consume py rest sp ns (extras @ [arg_string]) = Inr (ns', ex')"
          "Class_dash \<in> set sp"
        by (simp_all add: consume.simps)
      from "2.IH"(2) [OF Cons Class_A this(1) len this(2)] show ?thesis .
    next
      case Class_dash
      with Cons "2.prems" have "consume py rest sp ns (extras @ [arg_string]) = Inr (ns', ex')"
        by (simp add: consume.simps)
      from consume_extras [OF this] show ?thesis by auto
    qed
  qed
qed

lemma pattern_dash:
  "arg_strings_pattern ws = Inr pat \<Longrightarrow> ''--'' \<in> set ws \<Longrightarrow> Class_dash \<in> set pat"
proof (induction ws arbitrary: pat)
  case Nil
  then show ?case by simp
next
  case (Cons w ws)
  show ?case
  proof (cases "w = ''--''")
    case True
    with Cons.prems show ?thesis by auto
  next
    case False
    with Cons.prems obtain t p where "arg_strings_pattern ws = Inr p"
      "pat = (case t of None \<Rightarrow> Class_A | Some t \<Rightarrow> Class_O t) # p"
      by (auto split: sum.splits)
    with Cons.IH [of p] Cons.prems(2) False show ?thesis by auto
  qed
qed

lemma parse_args_Inr:
  assumes "parse_args py ws = Inr ns"
  shows "\<exists>pat. arg_strings_pattern ws = Inr pat \<and> length pat = length ws \<and>
           consume py ws pat default_namespace [] = Inr (ns, []) \<and> ''--'' \<notin> set ws"
proof -
  from assms obtain pat where pat: "arg_strings_pattern ws = Inr pat"
      and c: "consume py ws pat default_namespace [] = Inr (ns, [])"
    by (auto simp: parse_args_def split: sum.splits if_splits)
  have len: "length pat = length ws" by (rule pattern_length [OF pat])
  have "''--'' \<notin> set ws"
  proof
    assume "''--'' \<in> set ws"
    from consume_dash [OF c len pattern_dash [OF pat this]] show False by simp
  qed
  with pat len c show ?thesis by blast
qed

lemma parse_args_append:
  assumes "parse_args py ws = Inr ns" and "arg_strings_pattern xs = Inr pxs"
  shows "parse_args py (ws @ xs) =
          (case consume py xs pxs ns [] of
             Inl e \<Rightarrow> Inl e
           | Inr (ns', extras) \<Rightarrow> if extras \<noteq> [] then Inl (SystemExit 2) else Inr ns')"
proof -
  from parse_args_Inr [OF assms(1)] obtain pat where pat: "arg_strings_pattern ws = Inr pat"
     and len: "length pat = length ws" and c: "consume py ws pat default_namespace [] = Inr (ns, [])"
     and d: "''--'' \<notin> set ws" by blast
  from pattern_append [OF pat d assms(2)] consume_append [OF c len, of xs pxs]
  show ?thesis by (simp add: parse_args_def)
qed

lemma consume_store:
  assumes "kind a = Store ty" and "get_value py ty v = Inr x"
  shows "consume py [s, v] [Class_O (Some a, s, None, None), Class_A] ns [] =
           Inr (ns(the (dest a) \<mapsto> x), [])"
  using assms
  by (simp add: consume.simps consume_optional_def consume_optional_loop.simps match_argument_def
        take_action_def)


lemma parse_args_Nil: "parse_args py [] = Inr default_namespace"
  by (simp add: parse_args_def consume.simps)

lemma parse_args_store:
  assumes "parse_args py ws = Inr ns" and "map_of option_string_actions s = Some a"
    and "kind a = Store ty" and "is_argument v" and "get_value py ty v = Inr x"
  shows "parse_args py (ws @ [s, v]) = Inr (ns(the (dest a) \<mapsto> x))"
  by (simp add: parse_args_append [OF assms(1) pattern_store [OF assms(2,4)]]
        consume_store [OF assms(3,5)])


lemma parse_args_bare:
  assumes "parse_args py ws = Inr ns" and "t = [] \<or> hd t \<noteq> CHR ''-''"
  shows "parse_args py (ws @ [t]) = Inl (SystemExit 2)"
  by (simp add: parse_args_append [OF assms(1) pattern_bare [OF assms(2)]] consume.simps)

lemma declared:
  "map_of option_string_actions ''--batch_size'' = Some (add_argument ''--batch_size'' (Store Type_int) (PInt 64))"
  "map_of option_string_actions ''--test_batch_size'' = Some (add_argument ''--test_batch_size'' (Store Type_int) (PInt 1000))"
  "map_of option_string_actions ''--epochs'' = Some (add_argument ''--epochs'' (Store Type_int) (PInt 14))"
  "map_of option_string_actions ''--lr'' = Some (add_argument ''--lr'' (Store Type_float) (PFloat 1.0))"
  "map_of option_string_actions ''--gamma'' = Some (add_argument ''--gamma'' (Store Type_float) (PFloat 0.7))"
  "map_of option_string_actions ''--no_cuda'' = Some (add_argument ''--no_cuda'' Store_true (PBool False))"
  "map_of option_string_actions ''--dry_run'' = Some (add_argument ''--dry_run'' Store_true (PBool False))"
  "map_of option_string_actions ''--seed'' = Some (add_argument ''--seed'' (Store Type_int) (PInt 1))"
  "map_of option_string_actions ''--log_interval'' = Some (add_argument ''--log_interval'' (Store Type_int) (PInt 10))"
  "map_of option_string_actions ''--save_model'' = Some (add_argument ''--save_model'' Store_true (PBool False))"
  by (simp_all add: option_string_actions_def parser_actions_def add_argument_def help_action_def)

lemma dest_add_argument:
  "dest (add_argument ''--batch_size'' k d) = (if k = Help then None else Some ''batch_size'')"
  "dest (add_argument ''--test_batch_size'' k d) = (if k = Help then None else Some ''test_batch_size'')"
  "dest (add_argument ''--epochs'' k d) = (if k = Help then None else Some ''epochs'')"
  "dest (add_argument ''--lr'' k d) = (if k = Help then None else Some ''lr'')"
  "dest (add_argument ''--gamma'' k d) = (if k = Help then None else Some ''gamma'')"
  "dest (add_argument ''--no_cuda'' k d) = (if k = Help then None else Some ''no_cuda'')"
  "dest (add_argument ''--dry_run'' k d) = (if k = Help then None else Some ''dry_run'')"
  "dest (add_argument ''--seed'' k d) = (if k = Help then None else Some ''seed'')"
  "dest (add_argument ''--log_interval'' k d) = (if k = Help then None else Some ''log_interval'')"
  "dest (add_argument ''--save_model'' k d) = (if k = Help then None else Some ''save_model'')"
  by (simp_all add: dest_def add_argument_def)

lemma kind_add_argument: "kind (add_argument s k d) = k"
  by (simp add: add_argument_def)




lemma bare_argument: "v \<noteq> [] \<Longrightarrow> hd v \<noteq> CHR ''-'' \<Longrightarrow> is_argument v"
  by (auto simp: is_argument_def parse_optional_def)

lemma literals:
  "int_literal ''32'' = Some 32" "int_literal ''3'' = Some 3" "float_literal ''32'' = Some 32"
  by (simp_all add: int_literal_def float_literal_def decimal_literal_def digits_value_def
        digit_value_def is_digit_def)

lemma get_value_literals:
  "get_value decimal_python Type_int ''32'' = Inr (PInt 32)"
  "get_value decimal_python Type_int ''3'' = Inr (PInt 3)"
  by (simp_all add: get_value_def decimal_python_def literals)

lemma pattern_all_bare:
  "\<forall>t\<in>set ts. t = [] \<or> hd t \<noteq> CHR ''-'' \<Longrightarrow> arg_strings_pattern ts = Inr (map (\<lambda>_. Class_A) ts)"
proof (induction ts)
  case Nil
  then show ?case by simp
next
  case (Cons t ts)
  then have "t \<noteq> ''--''" "parse_optional t = Inr None"
    by (auto simp: parse_optional_def)
  with Cons show ?case by simp
qed

lemma consume_all_bare: "consume py ts (map (\<lambda>_. Class_A) ts) ns ex = Inr (ns, ex @ ts)"
  by (induction ts arbitrary: ex) (simp_all add: consume.simps)

lemma parse_args_all_bare:
  assumes "ts \<noteq> []" and "\<forall>t\<in>set ts. t = [] \<or> hd t \<noteq> CHR ''-''"
  shows "parse_args py ts = Inl (SystemExit 2)"
  using assms(1) by (simp add: parse_args_def pattern_all_bare [OF assms(2)] consume_all_bare)

lemma dest_Some: "kind a = Store ty \<Longrightarrow> \<exists>d. dest a = Some d"
  by (simp add: dest_def)















section \<open>The claims\<close>

text \<open>
  Claim C9. \<^verbatim>\<open>train\<close> handles no exception and returns no value. In every run, a library
  call that raised is the last call made (nothing is retried, nothing runs after it) and
  the run ends in exactly that exception; and a run that ends in an exception ends in
  the one its last call raised, or, with every call having returned, in the
  \<^verbatim>\<open>AttributeError\<close> or \<^verbatim>\<open>TypeError\<close> of the script's own \<^verbatim>\<open>args.batch_size\<close>, \<^verbatim>\<open>args.epochs\<close> or
  \<^verbatim>\<open>range(args.epochs)\<close>. The result of a run that ends normally has type \<open>unit\<close>.
\<close>

theorem train_fail_fast:
  assumes "train w rank args use_cuda [] = (r, tr)"
  shows "(\<forall>i<length tr. \<forall>e. outcome w (take i tr) (tr ! i) = Some e \<longrightarrow> r = Inl e \<and> Suc i = length tr) \<and>
         (\<forall>e. r = Inl e \<longrightarrow>
             (tr \<noteq> [] \<and> outcome w (butlast tr) (last tr) = Some e) \<or>
             (e \<in> {AttributeError ''batch_size'', AttributeError ''epochs'', TypeError} \<and>
              (\<forall>i<length tr. outcome w (take i tr) (tr ! i) = None)))"
proof -
  have "fail_fast w [] (train w rank args use_cuda [])"
    using train_is_run [of w rank args use_cuda] fail_fast_run [of w "[]"] fail_fast_run_raise [of _ w "[]"]
    by auto
  then show ?thesis
    by (simp add: assms fail_fast_def own_errors_def)
qed

theorem train_fail_fast_witness:
  "train offline_world 0 one_epoch False [] = (Inl (Library_error ''RuntimeError''), offline_trace) \<and>
   6 < length offline_trace \<and>
   outcome offline_world (take 6 offline_trace) (offline_trace ! 6) = Some (Library_error ''RuntimeError'') \<and>
   Suc 6 = length offline_trace \<and>
   offline_trace \<noteq> [] \<and>
   outcome offline_world (butlast offline_trace) (last offline_trace) = Some (Library_error ''RuntimeError'')"
proof -
  note t = train_fail_fast [OF offline_run]
  have len: "6 < length offline_trace"
    by (simp add: offline_trace_def)
  have raised: "outcome offline_world (take 6 offline_trace) (offline_trace ! 6) =
                Some (Library_error ''RuntimeError'')"
    by (simp add: offline_trace_def outcome_def offline_world_def quiet_world_def)
  from t len raised have last_call: "Suc 6 = length offline_trace"
    by blast
  have own: "Library_error ''RuntimeError'' \<notin> {AttributeError ''batch_size'', AttributeError ''epochs'', TypeError}"
    by simp
  from t own have "offline_trace \<noteq> [] \<and>
      outcome offline_world (butlast offline_trace) (last offline_trace) = Some (Library_error ''RuntimeError'')"
    by blast
  with offline_run len raised last_call show ?thesis
    by blast
qed

text \<open>
  Claim C2. With \<^verbatim>\<open>use_cuda\<close> true, every run of \<^verbatim>\<open>train\<close> ends in an exception and makes
  none of the calls of the training phase (from \<^verbatim>\<open>training_start = time.monotonic()\<close> on);
  a \<^verbatim>\<open>DataLoader\<close> that it constructs is given both \<^verbatim>\<open>sampler\<close> and \<^verbatim>\<open>shuffle=True\<close>, its
  construction is the last call of the run and the run ends in its \<^verbatim>\<open>ValueError\<close>.
\<close>

theorem train_cuda_stops_at_DataLoader:
  assumes "train w rank args True [] = (r, tr)"
  shows "(\<exists>e. r = Inl e) \<and>
         (\<forall>c\<in>set tr. \<not> training_call c) \<and>
         (\<forall>kwargs. DataLoader kwargs \<in> set tr \<longrightarrow>
            map_of kwargs ''sampler'' = Some Kw_sampler \<and>
            map_of kwargs ''shuffle'' = Some (Kw_value (PBool True)) \<and>
            r = Inl ValueError \<and> last tr = DataLoader kwargs)"
proof (cases "args ''batch_size''")
  case None
  with assms have "then_m (run w (setup_calls w rank True)) (raise_m (AttributeError ''batch_size'')) [] = (r, tr)"
    by (simp add: train_no_batch_size)
  from then_raise_prefix [OF this] obtain e k where "r = Inl e" "tr = take k (setup_calls w rank True)"
    by auto
  then show ?thesis
    using setup_no_loop [of _ w rank True] by (auto dest!: in_set_takeD)
next
  case (Some bs)
  let ?c = "DataLoader (loader_kwargs bs True)"
  have "\<exists>ys. train w rank args True [] =  run w (setup_calls w rank True @ ?c # ys) [] \<or>
      train w rank args True [] = then_m (run w (setup_calls w rank True @ ?c # ys)) (raise_m (AttributeError ''epochs'')) []
     \<or> train w rank args True [] = then_m (run w (setup_calls w rank True @ ?c # ys)) (raise_m TypeError) []"
  proof (cases "args ''epochs''")
    case None
    with Some show ?thesis using train_no_epochs [of args bs w rank True "[]"]
      by (auto simp: model_calls_def)
  next
    case ep: (Some ep)
    show ?thesis
    proof (cases "\<exists>x. ep = PFloat x")
      case True
      with Some ep show ?thesis using train_float_epochs [of args bs _ w rank True "[]"]
        by (auto simp: model_calls_def)
    next
      case False
      with Some ep show ?thesis using train_run [of args bs ep w rank True "[]"]
        by (auto simp: model_calls_def planned_calls_def)
    qed
  qed
  then obtain ys E where "run w (setup_calls w rank True @ ?c # ys) [] = (r, tr) \<or>
      then_m (run w (setup_calls w rank True @ ?c # ys)) (raise_m E) [] = (r, tr)"
    using assms by metis
  then have "\<exists>r1 tr1. run w (setup_calls w rank True @ ?c # ys) [] = (r1, tr1) \<and> ((r1, tr1) = (r, tr) \<or> (\<exists>u. r1 = Inr u))"
    by (cases "run w (setup_calls w rank True @ ?c # ys) []")
       (auto simp: then_m_def bind_m_def split: sum.splits)
  then obtain r1 tr1 where r1: "run w (setup_calls w rank True @ ?c # ys) [] = (r1, tr1)"
     and d: "(r1, tr1) = (r, tr) \<or> (\<exists>u. r1 = Inr u)" by blast
  from run_stops [OF outcome_cuda_loader r1]
  have s: "(\<exists>e k. r1 = Inl e \<and> k \<le> length (setup_calls w rank True) \<and> tr1 = take k (setup_calls w rank True)) \<or>
         (r1 = Inl ValueError \<and> tr1 = setup_calls w rank True @ [?c])" by simp
  with d have eq: "r1 = r" "tr1 = tr" by auto
  from s show ?thesis
  proof
    assume "\<exists>e k. r1 = Inl e \<and> k \<le> length (setup_calls w rank True) \<and> tr1 = take k (setup_calls w rank True)"
    then show ?thesis unfolding eq using setup_no_loop [of _ w rank True] by (auto dest!: in_set_takeD)
  next
    assume "r1 = Inl ValueError \<and> tr1 = setup_calls w rank True @ [?c]"
    then show ?thesis unfolding eq using setup_no_loop [of _ w rank True]
      by (auto simp: training_call_def loader_kwargs_def)
  qed
qed

theorem train_cuda_stops_at_DataLoader_witness:
  "train cuda_world 0 one_epoch True [] = (Inl ValueError, cuda_trace) \<and>
   filter training_call cuda_trace = [] \<and>
   DataLoader cuda_kwargs \<in> set cuda_trace \<and>
   map_of cuda_kwargs ''sampler'' = Some Kw_sampler \<and>
   map_of cuda_kwargs ''shuffle'' = Some (Kw_value (PBool True)) \<and>
   last cuda_trace = DataLoader cuda_kwargs"
proof -
  note t = train_cuda_stops_at_DataLoader [OF cuda_run]
  have reached: "DataLoader cuda_kwargs \<in> set cuda_trace"
    by (simp add: cuda_trace_def)
  from t reached have "map_of cuda_kwargs ''sampler'' = Some Kw_sampler \<and>
      map_of cuda_kwargs ''shuffle'' = Some (Kw_value (PBool True)) \<and>
      last cuda_trace = DataLoader cuda_kwargs"
    by blast
  moreover from t have "filter training_call cuda_trace = []"
    by (simp add: filter_empty_conv)
  ultimately show ?thesis
    using cuda_run reached by blast
qed










text \<open>
  Claim C10. Two argument objects that differ only in \<^verbatim>\<open>lr\<close>, \<^verbatim>\<open>gamma\<close>, \<^verbatim>\<open>test_batch_size\<close>,
  \<^verbatim>\<open>dry_run\<close>, \<^verbatim>\<open>seed\<close>, \<^verbatim>\<open>log_interval\<close> and \<^verbatim>\<open>save_model\<close> give the same \<^verbatim>\<open>train\<close>; every
  construction of the sharded optimizer in a run is \<^verbatim>\<open>OSS(..., optim=Adadelta, lr=1e-4)\<close>,
  and a run that ends normally has made it.
\<close>

theorem train_ignores_other_flags:
  assumes "\<forall>k. k \<notin> {''lr'', ''gamma'', ''test_batch_size'', ''dry_run'', ''seed'', ''log_interval'',
                      ''save_model''} \<longrightarrow> args' k = args k"
  shows "train w rank args' use_cuda = train w rank args use_cuda \<and>
         (\<forall>r tr opt lr. train w rank args use_cuda [] = (r, tr) \<longrightarrow> OSS opt lr \<in> set tr \<longrightarrow>
             opt = Adadelta \<and> lr = 1 / 10000) \<and>
         (\<forall>tr. train w rank args use_cuda [] = (Inr (), tr) \<longrightarrow> OSS Adadelta (1 / 10000) \<in> set tr)"
proof -
  from assms have "args' ''batch_size'' = args ''batch_size''" "args' ''epochs'' = args ''epochs''"
    by simp_all
  then have same: "train w rank args' use_cuda = train w rank args use_cuda"
    by (rule train_only_reads)
  have only: "opt = Adadelta \<and> lr = 1 / 10000"
    if "train w rank args use_cuda [] = (r, tr)" and m: "OSS opt lr \<in> set tr" for r tr opt lr
  proof -
    from train_trace_prefix [OF that(1)] obtain bs es x
      where "prefix tr (planned_calls w rank bs use_cuda es @ [Print x])" by blast
    with m have "OSS opt lr \<in> set (planned_calls w rank bs use_cuda es @ [Print x])"
      using set_mono_prefix by blast
    then show ?thesis by (rule OSS_in_planned)
  qed
  have always: "OSS Adadelta (1 / 10000) \<in> set tr"
    if run: "train w rank args use_cuda [] = (Inr (), tr)" for tr
    using train_two_cases [of w rank args use_cuda]
  proof (elim disjE exE)
    fix cs E
    assume "train w rank args use_cuda [] = then_m (run w cs) (raise_m E) []"
    with run have "then_m (run w cs) (raise_m E) [] = (Inr (), tr)" by simp
    from then_raise_prefix [OF this] show ?thesis by auto
  next
    fix bs ep
    assume "train w rank args use_cuda [] =
         run w (planned_calls w rank bs use_cuda (epoch_list ep) @
                [Print [Str ''Total Time:'', Num (total_time w (epoch_list ep))]]) []"
    with run have "run w (planned_calls w rank bs use_cuda (epoch_list ep) @
                [Print [Str ''Total Time:'', Num (total_time w (epoch_list ep))]]) [] = (Inr (), tr)"
      by simp
    from run_success [OF this] show ?thesis by (simp add: OSS_planned)
  qed
  from same only always show ?thesis by blast
qed

theorem train_ignores_other_flags_witness:
  "train quiet_world 0 (one_epoch(''lr'' \<mapsto> PFloat 5)) False = train quiet_world 0 one_epoch False \<and>
   train quiet_world 0 one_epoch False [] = (Inr (), quiet_trace 3) \<and>
   OSS Adadelta (1 / 10000) \<in> set (quiet_trace 3)"
proof -
  have other: "\<forall>k. k \<notin> {''lr'', ''gamma'', ''test_batch_size'', ''dry_run'', ''seed'', ''log_interval'',
                      ''save_model''} \<longrightarrow> (one_epoch(''lr'' \<mapsto> PFloat 5)) k = one_epoch k"
    by simp
  note t = train_ignores_other_flags [OF other, of quiet_world 0 False]
  with quiet_run show ?thesis
    by blast
qed

text \<open>
  Claim C7. On a batch of \<open>n\<close> one-channel 28 by 28 images, the forward pass of the network
  that \<^verbatim>\<open>Net()\<close> constructs returns a tensor of shape \<open>[n, 10]\<close>: ten classes for each image.
\<close>

theorem Net_forward_shape:
  assumes "Net_init w tr = (Inr self, tr')"
  shows "Net_forward self [n, 1, 28, 28] = Inr [n, 10]"
  unfolding Net_init_result [OF assms]
  by (simp add: Net_forward_def bind_e_def relu_def max_pool2d_def flatten_def log_softmax_def)

theorem Net_forward_shape_witness:
  "Net_init quiet_world [] = (Inr mnist_net, net_init_trace) \<and>
   Net_forward mnist_net [64, 1, 28, 28] = Inr [64, 10]"
  using Net_forward_shape [OF Net_init_quiet, of 64] Net_init_quiet
  by blast




text \<open>
  Claim C4, as stated: the ten flags are consumed from the command line by position. It
  fails: a command line of the seven values in the order of their declarations is
  rejected with exit status 2, and two named options give the same configuration in either
  order.
\<close>

theorem parse_args_positional_counterexample:
  "parse_args decimal_python [''64'', ''1000'', ''14'', ''1.0'', ''0.7'', ''1'', ''10''] = Inl (SystemExit 2) \<and>
   parse_args decimal_python [''--epochs'', ''3'', ''--batch_size'', ''32''] =
     Inr (default_namespace(''epochs'' \<mapsto> PInt 3, ''batch_size'' \<mapsto> PInt 32)) \<and>
   parse_args decimal_python [''--batch_size'', ''32'', ''--epochs'', ''3''] =
     Inr (default_namespace(''epochs'' \<mapsto> PInt 3, ''batch_size'' \<mapsto> PInt 32))"
proof -
  have arg: "is_argument ''32''" "is_argument ''3''"
    by (simp_all add: bare_argument)
  have p: "parse_args decimal_python [''64'', ''1000'', ''14'', ''1.0'', ''0.7'', ''1'', ''10''] = Inl (SystemExit 2)"
    by (rule parse_args_all_bare) simp_all
  from parse_args_store [OF parse_args_Nil declared(3) kind_add_argument arg(2) get_value_literals(2)]
  have e: "parse_args decimal_python [''--epochs'', ''3''] = Inr (default_namespace(''epochs'' \<mapsto> PInt 3))"
    by (simp add: dest_add_argument)
  from parse_args_store [OF parse_args_Nil declared(1) kind_add_argument arg(1) get_value_literals(1)]
  have b: "parse_args decimal_python [''--batch_size'', ''32''] = Inr (default_namespace(''batch_size'' \<mapsto> PInt 32))"
    by (simp add: dest_add_argument)
  from parse_args_store [OF e declared(1) kind_add_argument arg(1) get_value_literals(1)]
  have eb: "parse_args decimal_python [''--epochs'', ''3'', ''--batch_size'', ''32''] =
     Inr (default_namespace(''epochs'' \<mapsto> PInt 3, ''batch_size'' \<mapsto> PInt 32))"
    by (simp add: dest_add_argument)
  from parse_args_store [OF b declared(3) kind_add_argument arg(2) get_value_literals(2)]
  have "parse_args decimal_python [''--batch_size'', ''32'', ''--epochs'', ''3''] =
     Inr (default_namespace(''batch_size'' \<mapsto> PInt 32, ''epochs'' \<mapsto> PInt 3))"
    by (simp add: dest_add_argument)
  then have be: "parse_args decimal_python [''--batch_size'', ''32'', ''--epochs'', ''3''] =
     Inr (default_namespace(''epochs'' \<mapsto> PInt 3, ''batch_size'' \<mapsto> PInt 32))"
    by (simp add: fun_upd_twist)
  from p eb be show ?thesis by simp
qed

text \<open>
  Claim C4, amended. The ten flags are parsed by name: every argument of the parser is
  declared with option strings that start with \<^verbatim>\<open>-\<close> (the parser has no positional
  argument); after any command line that parses, a bare value (a string that is empty or
  does not start with \<^verbatim>\<open>-\<close>) is rejected with exit status 2; and two valued options with
  different destinations, each followed by an argument string that its type converts,
  give the same configuration in either order.
\<close>

theorem parse_args_by_name:
  assumes "parse_args py ws = Inr ns"
  shows "(\<forall>a\<in>set parser_actions.
            option_strings a \<noteq> [] \<and> (\<forall>s\<in>set (option_strings a). s \<noteq> [] \<and> hd s = CHR ''-'')) \<and>
         (\<forall>t. t = [] \<or> hd t \<noteq> CHR ''-'' \<longrightarrow> parse_args py (ws @ [t]) = Inl (SystemExit 2)) \<and>
         (\<forall>s a ty v x s' a' ty' v' x'.
            map_of option_string_actions s = Some a \<and> kind a = Store ty \<and>
            is_argument v \<and> get_value py ty v = Inr x \<and>
            map_of option_string_actions s' = Some a' \<and> kind a' = Store ty' \<and>
            is_argument v' \<and> get_value py ty' v' = Inr x' \<and> dest a \<noteq> dest a' \<longrightarrow>
            parse_args py (ws @ [s, v, s', v']) = Inr (ns(the (dest a) \<mapsto> x, the (dest a') \<mapsto> x')) \<and>
            parse_args py (ws @ [s', v', s, v]) = Inr (ns(the (dest a) \<mapsto> x, the (dest a') \<mapsto> x')))"
proof -
  have named: "\<forall>a\<in>set parser_actions.
            option_strings a \<noteq> [] \<and> (\<forall>s\<in>set (option_strings a). s \<noteq> [] \<and> hd s = CHR ''-'')"
    by (simp add: parser_actions_def add_argument_def help_action_def)
  have bare: "parse_args py (ws @ [t]) = Inl (SystemExit 2)" if "t = [] \<or> hd t \<noteq> CHR ''-''" for t
    using assms that by (rule parse_args_bare)
  have swap: "parse_args py (ws @ [s, v, s', v']) = Inr (ns(the (dest a) \<mapsto> x, the (dest a') \<mapsto> x')) \<and>
            parse_args py (ws @ [s', v', s, v]) = Inr (ns(the (dest a) \<mapsto> x, the (dest a') \<mapsto> x'))"
    if a: "map_of option_string_actions s = Some a" "kind a = Store ty"
          "is_argument v" "get_value py ty v = Inr x"
      and a': "map_of option_string_actions s' = Some a'" "kind a' = Store ty'"
          "is_argument v'" "get_value py ty' v' = Inr x'"
      and d: "dest a \<noteq> dest a'"
    for s a ty v x s' a' ty' v' x'
  proof -
    from dest_Some [OF a(2)] dest_Some [OF a'(2)] obtain k k' where "dest a = Some k" "dest a' = Some k'"
      by blast
    with d have ne: "the (dest a) \<noteq> the (dest a')"
      by simp
    have 1: "parse_args py (ws @ [s, v]) = Inr (ns(the (dest a) \<mapsto> x))"
      by (rule parse_args_store [OF assms a])
    have 2: "parse_args py (ws @ [s', v']) = Inr (ns(the (dest a') \<mapsto> x'))"
      by (rule parse_args_store [OF assms a'])
    from parse_args_store [OF 1 a'] have 3:
      "parse_args py (ws @ [s, v, s', v']) = Inr (ns(the (dest a) \<mapsto> x, the (dest a') \<mapsto> x'))"
      by simp
    from parse_args_store [OF 2 a] have
      "parse_args py (ws @ [s', v', s, v]) = Inr (ns(the (dest a') \<mapsto> x', the (dest a) \<mapsto> x))"
      by simp
    with ne have "parse_args py (ws @ [s', v', s, v]) = Inr (ns(the (dest a) \<mapsto> x, the (dest a') \<mapsto> x'))"
      by (simp add: fun_upd_twist)
    with 3 show ?thesis by simp
  qed
  show ?thesis
  proof (intro conjI)
    show "\<forall>a\<in>set parser_actions.
            option_strings a \<noteq> [] \<and> (\<forall>s\<in>set (option_strings a). s \<noteq> [] \<and> hd s = CHR ''-'')"
      by (rule named)
    show "\<forall>t. t = [] \<or> hd t \<noteq> CHR ''-'' \<longrightarrow> parse_args py (ws @ [t]) = Inl (SystemExit 2)"
      by (intro allI impI) (rule bare)
    show "\<forall>s a ty v x s' a' ty' v' x'.
            map_of option_string_actions s = Some a \<and> kind a = Store ty \<and>
            is_argument v \<and> get_value py ty v = Inr x \<and>
            map_of option_string_actions s' = Some a' \<and> kind a' = Store ty' \<and>
            is_argument v' \<and> get_value py ty' v' = Inr x' \<and> dest a \<noteq> dest a' \<longrightarrow>
            parse_args py (ws @ [s, v, s', v']) = Inr (ns(the (dest a) \<mapsto> x, the (dest a') \<mapsto> x')) \<and>
            parse_args py (ws @ [s', v', s, v]) = Inr (ns(the (dest a) \<mapsto> x, the (dest a') \<mapsto> x'))"
      by (intro allI impI, elim conjE) (rule swap; assumption)
  qed
qed

theorem parse_args_by_name_witness:
  "parse_args decimal_python [] = Inr default_namespace \<and>
   parse_args decimal_python ([] @ [''32'']) = Inl (SystemExit 2) \<and>
   parse_args decimal_python ([] @ [''--epochs'', ''3'', ''--batch_size'', ''32'']) =
     Inr (default_namespace(''epochs'' \<mapsto> PInt 3, ''batch_size'' \<mapsto> PInt 32)) \<and>
   parse_args decimal_python ([] @ [''--batch_size'', ''32'', ''--epochs'', ''3'']) =
     Inr (default_namespace(''epochs'' \<mapsto> PInt 3, ''batch_size'' \<mapsto> PInt 32))"
proof -
  note t = parse_args_by_name [OF parse_args_Nil, of decimal_python]
  have bare: "''32'' = [] \<or> hd ''32'' \<noteq> CHR ''-''"
    by simp
  note rejected = t [THEN conjunct2, THEN conjunct1, rule_format, OF bare]
  have named:
    "map_of option_string_actions ''--epochs'' = Some (add_argument ''--epochs'' (Store Type_int) (PInt 14)) \<and>
     kind (add_argument ''--epochs'' (Store Type_int) (PInt 14)) = Store Type_int \<and>
     is_argument ''3'' \<and> get_value decimal_python Type_int ''3'' = Inr (PInt 3) \<and>
     map_of option_string_actions ''--batch_size'' = Some (add_argument ''--batch_size'' (Store Type_int) (PInt 64)) \<and>
     kind (add_argument ''--batch_size'' (Store Type_int) (PInt 64)) = Store Type_int \<and>
     is_argument ''32'' \<and> get_value decimal_python Type_int ''32'' = Inr (PInt 32) \<and>
     dest (add_argument ''--epochs'' (Store Type_int) (PInt 14)) \<noteq>
     dest (add_argument ''--batch_size'' (Store Type_int) (PInt 64))"
    by (simp add: declared kind_add_argument bare_argument get_value_literals dest_add_argument)
  note either = t [THEN conjunct2, THEN conjunct2, rule_format, OF named]
  from either have
    "parse_args decimal_python ([] @ [''--epochs'', ''3'', ''--batch_size'', ''32'']) =
       Inr (default_namespace(''epochs'' \<mapsto> PInt 3, ''batch_size'' \<mapsto> PInt 32)) \<and>
     parse_args decimal_python ([] @ [''--batch_size'', ''32'', ''--epochs'', ''3'']) =
       Inr (default_namespace(''epochs'' \<mapsto> PInt 3, ''batch_size'' \<mapsto> PInt 32))"
    by (simp add: dest_add_argument)
  with parse_args_Nil [of decimal_python] rejected show ?thesis
    by (intro conjI) simp_all
qed

end
